theory Spec2Isabelle
  imports Main "HOL-Library.Sublist" "HOL-Library.AList"
begin

section \<open>Service records\<close>

text \<open>
  A service record as the classes \<open>LiveTime\<close> and \<open>LiveTimeStud\<close> of
  \<open>ojp_departures.py\<close> hold it. Arrival instants are seconds on one common clock;
  \<open>None\<close> is Python's \<open>None\<close> (the parser's \<open>Optional[datetime]\<close>).
\<close>

record service =
  ID :: string
  ServiceNumber :: string
  Destination :: string
  Via :: string
  DisplayTime :: string
  SchArrival :: "int option"
  ExptArrival :: "int option"

text \<open>
  \<open>LiveTimeStud()\<close>: the blank record with ID "0". Its arrival fields hold the
  placeholder " " in the source and are never read as instants; they are \<open>None\<close> here.
\<close>

definition LiveTimeStud :: service where
  "LiveTimeStud =
     \<lparr>ID = ''0'', ServiceNumber = '' '', Destination = '' '', Via = '' '',
      DisplayTime = '' '', SchArrival = None, ExptArrival = None\<rparr>"

text \<open>
  The sort key of \<open>fetch_and_sort_services\<close>:
  \<open>svc.ExptArrival if svc.ExptArrival else svc.SchArrival\<close>.
\<close>

definition arrival_key :: "service \<Rightarrow> int option" where
  "arrival_key svc = (case ExptArrival svc of Some t \<Rightarrow> Some t | None \<Rightarrow> SchArrival svc)"

definition arrives_no_later :: "service \<Rightarrow> service \<Rightarrow> bool" where
  "arrives_no_later a b =
     (case (arrival_key a, arrival_key b) of
        (Some x, Some y) \<Rightarrow> x \<le> y
      | _ \<Rightarrow> False)"

definition sorted_by_arrival :: "service list \<Rightarrow> bool" where
  "sorted_by_arrival xs = sorted_wrt arrives_no_later xs"

section \<open>Pinned and rotating services\<close>

text \<open>
  The loop of \<open>split_pinned_rotating\<close> that removes duplicates: \<open>unique_rotating\<close>
  and \<open>seen_ids\<close> are the two accumulators of the source.
\<close>

fun unique_loop :: "service list \<Rightarrow> service list \<Rightarrow> string set \<Rightarrow> service list" where
  "unique_loop [] unique_rotating seen_ids = unique_rotating"
| "unique_loop (svc # rest) unique_rotating seen_ids =
     (if ID svc \<notin> seen_ids
      then unique_loop rest (unique_rotating @ [svc]) (insert (ID svc) seen_ids)
      else unique_loop rest unique_rotating seen_ids)"

definition split_pinned_rotating :: "service list \<Rightarrow> service option \<times> service list" where
  "split_pinned_rotating Services =
     (if length Services = 0 then (None, [])
      else
        let pinned = Services ! 0;
            rotating = drop 1 Services;
            rotating = filter (\<lambda>svc. ID svc \<noteq> ID pinned) rotating
        in (Some pinned, unique_loop rotating [] {}))"

text \<open>
  The rotating list in the words of the specification: the records after the head, in
  their order, keeping the record at position \<open>j\<close> of the tail when its ID is not the
  pinned one and no earlier record of the tail has its ID.
\<close>

definition kept_in_tail :: "string \<Rightarrow> service list \<Rightarrow> nat \<Rightarrow> bool" where
  "kept_in_tail pinned_id tail j =
     (ID (tail ! j) \<noteq> pinned_id \<and> list_all (\<lambda>k. ID (tail ! k) \<noteq> ID (tail ! j)) [0..<j])"

definition first_occurrences_of_tail :: "service list \<Rightarrow> service list" where
  "first_occurrences_of_tail Services =
     map (\<lambda>j. tl Services ! j)
       (filter (kept_in_tail (ID (hd Services)) (tl Services)) [0..<length (tl Services)])"

text \<open>The loop without its accumulator: what it appends, given the IDs seen so far.\<close>

fun unique_from :: "string set \<Rightarrow> service list \<Rightarrow> service list" where
  "unique_from seen [] = []"
| "unique_from seen (svc # rest) =
     (if ID svc \<notin> seen then svc # unique_from (insert (ID svc) seen) rest
      else unique_from seen rest)"

section \<open>Exceptions and outcomes\<close>

text \<open>
  The exceptions the modelled code raises or handles. \<open>RequestException\<close> stands for
  every \<open>requests\<close> exception that is not a \<open>ConnectionError\<close>, \<open>OtherException\<close> for
  every other subclass of \<open>Exception\<close>, and \<open>OtherBaseException\<close> for an exception
  outside \<open>Exception\<close> (\<open>KeyboardInterrupt\<close>, \<open>SystemExit\<close>). Each carries what
  \<open>str(e)\<close> returns.
\<close>

datatype py_exn =
    CancelledError
  | RequestsConnectionError string
  | RequestException string
  | TypeError string
  | ValueError string
  | AttributeError string
  | QueueEmpty
  | OtherException string
  | OtherBaseException string





text \<open>
  What a call does: it returns a value, raises, or suspends at an \<open>await\<close> that nothing
  in the model resumes (a \<open>put\<close> on a full queue).
\<close>

datatype 'a outcome = Returned 'a | Raised py_exn | Suspended

section \<open>The update queue\<close>

text \<open>
  \<open>asyncio.Queue(maxsize=3)\<close> as the board uses it: the items in order, the bound, and
  the counter of unfinished tasks that \<open>task_done\<close> decrements (it raises \<open>ValueError\<close>
  when called more often than items were put).
\<close>

record 'a queue =
  items :: "'a list"
  maxsize :: nat
  unfinished_tasks :: nat

definition new_queue :: "nat \<Rightarrow> 'a queue" where
  "new_queue n = \<lparr>items = [], maxsize = n, unfinished_tasks = 0\<rparr>"

definition queue_empty :: "'a queue \<Rightarrow> bool" where
  "queue_empty q = (items q = [])"

definition queue_full :: "'a queue \<Rightarrow> bool" where
  "queue_full q = (if maxsize q = 0 then False else maxsize q \<le> length (items q))"

definition get_nowait :: "'a queue \<Rightarrow> 'a outcome \<times> 'a queue" where
  "get_nowait q =
     (case items q of
        [] \<Rightarrow> (Raised QueueEmpty, q)
      | x # xs \<Rightarrow> (Returned x, q\<lparr>items := xs\<rparr>))"

definition task_done :: "'a queue \<Rightarrow> unit outcome \<times> 'a queue" where
  "task_done q =
     (if unfinished_tasks q = 0
      then (Raised (ValueError ''task_done() called too many times''), q)
      else (Returned (), q\<lparr>unfinished_tasks := unfinished_tasks q - 1\<rparr>))"

definition put :: "'a \<Rightarrow> 'a queue \<Rightarrow> unit outcome \<times> 'a queue" where
  "put item q =
     (if queue_full q then (Suspended, q)
      else (Returned (),
            q\<lparr>items := items q @ [item], unfinished_tasks := unfinished_tasks q + 1\<rparr>))"

text \<open>
  The loop of \<open>_enqueue_update\<close>: while the queue is not empty, take an item and mark
  it done; \<open>QueueEmpty\<close> leaves the loop, any other exception leaves the function with
  the queue as it is at that moment.
\<close>

function drain :: "'a queue \<Rightarrow> unit outcome \<times> 'a queue" where
  "drain q =
     (if \<not> queue_empty q then
        (case get_nowait q of
           (Raised QueueEmpty, q1) \<Rightarrow> (Returned (), q1)
         | (Raised e, q1) \<Rightarrow> (Raised e, q1)
         | (Suspended, q1) \<Rightarrow> (Suspended, q1)
         | (Returned x, q1) \<Rightarrow>
             (case task_done q1 of
                (Raised QueueEmpty, q2) \<Rightarrow> (Returned (), q2)
              | (Raised e, q2) \<Rightarrow> (Raised e, q2)
              | (Suspended, q2) \<Rightarrow> (Suspended, q2)
              | (Returned u, q2) \<Rightarrow> drain q2))
      else (Returned (), q))"
  by pat_completeness auto
termination
proof (relation "measure (\<lambda>q. length (items q))")
  show "wf (measure (\<lambda>q. length (items q)))"
    by simp
next
  fix q q1 q2 :: "'a queue" and r1 r2 x u
  assume "\<not> queue_empty q" and g: "(r1, q1) = get_nowait q" and "r1 = Returned x"
    and t: "(r2, q2) = task_done q1" and "r2 = Returned u"
  from g have "length (items q1) \<le> length (items q)"
    by (auto simp add: get_nowait_def split: list.splits)
  moreover from g \<open>r1 = Returned x\<close> have "length (items q1) \<noteq> length (items q)"
    by (auto simp add: get_nowait_def split: list.splits)
  moreover from t have "items q2 = items q1"
    by (auto simp add: task_done_def split: if_splits)
  ultimately show "(q2, q) \<in> measure (\<lambda>q. length (items q))"
    by simp
qed

declare drain.simps [simp del]

definition enqueue_update :: "'a \<Rightarrow> 'a queue \<Rightarrow> unit outcome \<times> 'a queue" where
  "enqueue_update item q =
     (case drain q of
        (Returned u, q1) \<Rightarrow> put item q1
      | (Raised e, q1) \<Rightarrow> (Raised e, q1)
      | (Suspended, q1) \<Rightarrow> (Suspended, q1))"

text \<open>
  The consumer, \<open>process_pending_updates\<close>, as the queue sees it: it takes an item when
  the queue is not empty and calls \<open>task_done\<close> once for every item it took. The second
  component of the state counts the items taken and not yet marked done.
\<close>

datatype 'a queue_op = Enqueue 'a | ConsumerGet | ConsumerTaskDone

fun queue_step :: "'a queue_op \<Rightarrow> 'a queue \<times> nat \<Rightarrow> unit outcome \<times> 'a queue \<times> nat" where
  "queue_step (Enqueue item) (q, taken) =
     (case enqueue_update item q of (r, q1) \<Rightarrow> (r, q1, taken))"
| "queue_step ConsumerGet (q, taken) =
     (if queue_empty q then (Returned (), q, taken)
      else (case get_nowait q of
              (Returned x, q1) \<Rightarrow> (Returned (), q1, taken + 1)
            | (Raised e, q1) \<Rightarrow> (Raised e, q1, taken)
            | (Suspended, q1) \<Rightarrow> (Suspended, q1, taken)))"
| "queue_step ConsumerTaskDone (q, taken) =
     (if taken = 0 then (Returned (), q, taken)
      else (case task_done q of
              (Returned u, q1) \<Rightarrow> (Returned (), q1, taken - 1)
            | (r, q1) \<Rightarrow> (r, q1, taken)))"

fun queue_run :: "'a queue_op list \<Rightarrow> 'a queue \<times> nat \<Rightarrow> unit outcome \<times> 'a queue \<times> nat" where
  "queue_run [] s = (Returned (), s)"
| "queue_run (op # ops) s =
     (case queue_step op s of
        (Returned u, s1) \<Rightarrow> queue_run ops s1
      | (r, s1) \<Rightarrow> (r, s1))"

text \<open>
  What holds of the queue between calls: every item still queued, and every item the
  consumer took and has not marked done, is counted as unfinished.
\<close>

definition queue_inv :: "'a queue \<times> nat \<Rightarrow> bool" where
  "queue_inv s =
     (unfinished_tasks (fst s) = length (items (fst s)) + snd s \<and> length (items (fst s)) \<le> 1)"

section \<open>The fetch pipeline\<close>

text \<open>
  An item of the update queue: the dictionaries \<open>{"type": "data", "payload": ...}\<close> and
  \<open>{"type": "error", "reason": ..., "details": ...}\<close>.
\<close>

datatype update = DataUpdate "service list" | ErrorUpdate string string


text \<open>
  The class attributes \<open>LiveTime.LastUpdate\<close> and \<open>LiveTime.FetchInProgress\<close> and the
  board's queue: the state \<open>fetch_and_sort_services\<close> works on.
\<close>

record fetch_state =
  LastUpdate :: int
  FetchInProgress :: bool
  update_queue :: "update queue"










section \<open>Images, the composition and the synchroniser\<close>

text \<open>
  What an image shows. The pixels are rendering data; the model keeps what the image was
  built from: \<open>StaticTextImage new previous\<close> is the two-line banner of the slide
  animation, with the new service on the lower line and the previous one above it.
\<close>

datatype picture =
    StaticTextImage service service
  | RectangleCover
  | DestinationImage service
  | ServiceNumberImage string
  | DisplayTimeImage string

text \<open>
  A \<open>ComposableImage\<close>: an object with an identity (\<open>ref\<close>), its picture, and the row
  it is placed on. Neither the pixel offset that \<open>render\<close> writes nor the redrawing
  done by \<open>image_composition.refresh()\<close> is part of the model.
\<close>

record composable =
  ref :: nat
  picture :: picture
  at_row :: nat

text \<open>
  What the rows of a board share: the list \<open>image_composition.composed_images\<close>, the
  dictionary \<open>Synchroniser.synchronised\<close>, and the next free object identity. The
  dictionary is keyed by the row object; a board has one live row object per position,
  so the position is the key here.
\<close>

record shared_state =
  composed_images :: "composable list"
  synchronised :: "(nat \<times> bool) list"
  next_ref :: nat

definition new_image :: "picture \<Rightarrow> nat \<Rightarrow> shared_state \<Rightarrow> composable \<times> shared_state" where
  "new_image p r sh =
     (\<lparr>ref = next_ref sh, picture = p, at_row = r\<rparr>, sh\<lparr>next_ref := next_ref sh + 1\<rparr>)"

definition add_image :: "composable \<Rightarrow> shared_state \<Rightarrow> shared_state" where
  "add_image img sh = sh\<lparr>composed_images := composed_images sh @ [img]\<rparr>"

definition image_in :: "composable \<Rightarrow> shared_state \<Rightarrow> bool" where
  "image_in img sh = (ref img \<in> set (map ref (composed_images sh)))"

fun remove_ref :: "nat \<Rightarrow> composable list \<Rightarrow> composable list" where
  "remove_ref r [] = []"
| "remove_ref r (img # imgs) = (if ref img = r then imgs else img # remove_ref r imgs)"

text \<open>
  \<open>image_composition.remove_image\<close> is \<open>list.remove\<close>: it raises \<open>ValueError\<close> when the
  image is not in the composition (the exception \<open>_remove_if_present\<close> catches).
\<close>

definition remove_image :: "composable \<Rightarrow> shared_state \<Rightarrow> unit outcome \<times> shared_state" where
  "remove_image img sh =
     (if image_in img sh
      then (Returned (), sh\<lparr>composed_images := remove_ref (ref img) (composed_images sh)\<rparr>)
      else (Raised (ValueError ''list.remove(x): x not in list''), sh))"

definition safe_remove_image :: "composable \<Rightarrow> shared_state \<Rightarrow> shared_state" where
  "safe_remove_image img sh =
     (if image_in img sh then snd (remove_image img sh) else sh)"

definition busy :: "nat \<Rightarrow> shared_state \<Rightarrow> shared_state" where
  "busy task sh = sh\<lparr>synchronised := AList.update task False (synchronised sh)\<rparr>"

definition ready :: "nat \<Rightarrow> shared_state \<Rightarrow> shared_state" where
  "ready task sh = sh\<lparr>synchronised := AList.update task True (synchronised sh)\<rparr>"

definition forget :: "nat \<Rightarrow> shared_state \<Rightarrow> shared_state" where
  "forget task sh = sh\<lparr>synchronised := AList.delete task (synchronised sh)\<rparr>"


section \<open>A row: the class ScrollTime\<close>

datatype row_state =
    WAIT_OPENING | OPENING_SCROLL | OPENING_END | SCROLL_DECIDER | SCROLLING_WAIT
  | SCROLLING | WAIT_SYNC | WAIT_STUD | STUD_SCROLL | STUD_END | STUD

text \<open>
  The command-line settings the modelled code reads, and the width in pixels of the
  destination image of a service, which the fonts decide.
\<close>

record args =
  Speed :: int
  Delay :: int
  RequestLimit :: int
  ReducedAnimations :: bool
  FixToArrive :: bool
  destination_width :: "service \<Rightarrow> int"

text \<open>
  The fields of a \<open>ScrollTime\<close>. \<open>partner\<close> is the position of the row below, when one
  was given by \<open>addPartner\<close>; \<open>IStaticOld\<close> is \<open>None\<close> once \<open>del self.IStaticOld\<close> has
  removed the attribute.
\<close>

record scroll_time =
  position :: nat
  CurrentService :: service
  state :: row_state
  ticks :: int
  delay :: int
  speed :: int
  image_x_pos :: int
  image_y_posA :: int
  max_pos :: int
  partner :: "nat option"
  IStaticOld :: "composable option"
  rectangle :: composable
  IDestination :: composable
  IServiceNumber :: composable
  IDisplayTime :: composable

definition generateCard ::
  "service \<Rightarrow> scroll_time \<times> shared_state \<Rightarrow> scroll_time \<times> shared_state" where
  "generateCard svc rs =
     (let (r, sh) = rs;
          (d, sh1) = new_image (DestinationImage svc) (position r) sh;
          (n, sh2) = new_image (ServiceNumberImage (ServiceNumber svc)) (position r) sh1;
          (t, sh3) = new_image (DisplayTimeImage (DisplayTime svc)) (position r) sh2
      in (r\<lparr>IDestination := d, IServiceNumber := n, IDisplayTime := t\<rparr>, sh3))"

text \<open>\<open>ScrollTime.__init__\<close>.\<close>

definition new_scroll_time ::
  "args \<Rightarrow> service \<Rightarrow> service \<Rightarrow> int \<Rightarrow> nat \<Rightarrow> shared_state \<Rightarrow> scroll_time \<times> shared_state" where
  "new_scroll_time a svc previous_service scroll_delay pos sh =
     (let (rect, sh1) = new_image RectangleCover (pos + 1) sh;
          (d, sh2) = new_image (DestinationImage svc) pos sh1;
          (n, sh3) = new_image (ServiceNumberImage (ServiceNumber svc)) pos sh2;
          (t, sh4) = new_image (DisplayTimeImage (DisplayTime svc)) pos sh3;
          (old, sh5) = new_image (StaticTextImage svc previous_service) pos sh4;
          sh6 = add_image rect (add_image old sh5);
          r = \<lparr>position = pos, CurrentService = svc,
               state = (if ID svc \<noteq> ''0'' then OPENING_SCROLL else STUD),
               ticks = 0, delay = scroll_delay, speed = Speed a,
               image_x_pos = 0, image_y_posA = 0, max_pos = destination_width a svc,
               partner = None, IStaticOld = Some old, rectangle = rect,
               IDestination = d, IServiceNumber = n, IDisplayTime = t\<rparr>
      in (r, ready pos sh6))"

definition updateCard ::
  "service \<Rightarrow> scroll_time \<times> shared_state \<Rightarrow> unit outcome \<times> scroll_time \<times> shared_state" where
  "updateCard newService rs =
     (let (r, sh) = rs;
          r1 = r\<lparr>state := SCROLL_DECIDER\<rparr>;
          sh1 = ready (position r) sh
      in case remove_image (IDisplayTime r1) sh1 of
           (Raised e, sh2) \<Rightarrow> (Raised e, r1, sh2)
         | (Suspended, sh2) \<Rightarrow> (Suspended, r1, sh2)
         | (Returned u, sh2) \<Rightarrow>
             (let (t, sh3) = new_image (DisplayTimeImage (DisplayTime newService)) (position r) sh2
              in (Returned (),
                  r1\<lparr>CurrentService := newService, IDisplayTime := t\<rparr>,
                  add_image t sh3)))"

text \<open>\<open>refresh\<close>: the three images of the card are taken out if present and added again.\<close>

definition refresh :: "scroll_time \<Rightarrow> shared_state \<Rightarrow> shared_state" where
  "refresh r sh =
     (let sh1 = safe_remove_image (IDestination r) sh;
          sh2 = safe_remove_image (IServiceNumber r) sh1;
          sh3 = safe_remove_image (IDisplayTime r) sh2
      in add_image (IDisplayTime r) (add_image (IServiceNumber r) (add_image (IDestination r) sh3)))"

text \<open>
  The guard of \<open>changeCard\<close>,
  \<open>newService.ID == "0" and self.CurrentService.ID == "0"\<close>: the new and the current
  service are both empty.
\<close>

definition both_empty :: "service \<Rightarrow> scroll_time \<Rightarrow> bool" where
  "both_empty svc r = (ID svc = ''0'' \<and> ID (CurrentService r) = ''0'')"

text \<open>
  \<open>changeCard\<close>; \<open>partner_row\<close> is the object \<open>self.partner\<close> refers to, if any.
\<close>

definition changeCard ::
  "args \<Rightarrow> service \<Rightarrow> scroll_time option \<Rightarrow> scroll_time \<times> shared_state
     \<Rightarrow> scroll_time \<times> shared_state" where
  "changeCard a newService partner_row rs =
     (let (r, sh) = rs in
      if both_empty newService r
      then (r\<lparr>state := STUD\<rparr>, ready (position r) sh)
      else
        (let sh1 = busy (position r) sh;
             (old, sh2) = new_image (StaticTextImage newService (CurrentService r)) (position r) sh1;
             r1 = r\<lparr>IStaticOld := Some old\<rparr>;
             sh3 = add_image (rectangle r1) (add_image old sh2);
             sh4 = (if ID (CurrentService r1) \<noteq> ''0''
                    then safe_remove_image (IDisplayTime r1)
                           (safe_remove_image (IServiceNumber r1)
                              (safe_remove_image (IDestination r1) sh3))
                    else sh3);
             sh5 = (case partner_row of
                      None \<Rightarrow> sh4
                    | Some p \<Rightarrow> if ID (CurrentService p) \<noteq> ''0'' then refresh p sh4 else sh4);
             (r2, sh6) = generateCard newService (r1, sh5)
         in (r2\<lparr>CurrentService := newService,
                max_pos := destination_width a newService,
                state := (if ID newService = ''0'' then WAIT_STUD else WAIT_OPENING)\<rparr>,
             sh6)))"

text \<open>
  \<open>delete\<close>: reading \<open>self.IStaticOld\<close> after \<open>del self.IStaticOld\<close> raises
  \<open>AttributeError\<close> before anything is removed.
\<close>

definition delete :: "scroll_time \<times> shared_state \<Rightarrow> unit outcome \<times> shared_state" where
  "delete rs =
     (let (r, sh) = rs in
      case IStaticOld r of
        None \<Rightarrow> (Raised (AttributeError ''IStaticOld''), sh)
      | Some old \<Rightarrow>
          (Returned (),
           forget (position r)
             (safe_remove_image (IDisplayTime r)
               (safe_remove_image (IServiceNumber r)
                 (safe_remove_image (IDestination r)
                   (safe_remove_image (rectangle r)
                     (safe_remove_image old sh)))))))"

definition is_waiting :: "scroll_time \<Rightarrow> bool \<times> scroll_time" where
  "is_waiting r =
     (if ticks r + 1 > delay r then (False, r\<lparr>ticks := 0\<rparr>)
      else (True, r\<lparr>ticks := ticks r + 1\<rparr>))"






text \<open>The two-line banners of the slide animation that are in the composition.\<close>

fun is_banner :: "picture \<Rightarrow> bool" where
  "is_banner (StaticTextImage new previous) = True"
| "is_banner p = False"

definition banners :: "shared_state \<Rightarrow> composable list" where
  "banners sh = filter (\<lambda>img. is_banner (picture img)) (composed_images sh)"

text \<open>
  The images of a row are objects that exist: their identities are below the next free
  one.
\<close>

definition allocated :: "shared_state \<Rightarrow> scroll_time \<Rightarrow> bool" where
  "allocated sh r =
     (ref (rectangle r) < next_ref sh \<and> ref (IDestination r) < next_ref sh \<and>
      ref (IServiceNumber r) < next_ref sh \<and> ref (IDisplayTime r) < next_ref sh)"

section \<open>The board: the class boardFixed\<close>

text \<open>
  The fields of the board that the rotation and reassignment code reads or writes. The
  rows \<open>self.top\<close>, \<open>self.middle\<close> and \<open>self.bottom\<close> are \<open>top_row\<close>, \<open>middle_row\<close> and
  \<open>bottom_row\<close>; \<open>live\<close> holds the class attributes of \<open>LiveTime\<close> and the update
  queue; \<open>fetch_task\<close> says that \<open>self._fetch_task\<close> is a task that is not done.
\<close>

record board =
  top_row :: "scroll_time option"
  middle_row :: "scroll_time option"
  bottom_row :: "scroll_time option"
  shared :: shared_state
  Services :: "service list"
  rotating_index :: nat
  rotating_update_pending :: bool
  outage_state :: "string option"
  scroll_delay :: int
  live :: fetch_state
  fetch_task :: bool

text \<open>\<open>boardFixed.__init__\<close>.\<close>

definition new_board :: "int \<Rightarrow> board" where
  "new_board d =
     \<lparr>top_row = None, middle_row = None, bottom_row = None,
      shared = \<lparr>composed_images = [], synchronised = [], next_ref = 0\<rparr>,
      Services = [], rotating_index = 0, rotating_update_pending = False,
      outage_state = None, scroll_delay = d,
      live = \<lparr>LastUpdate = 0, FetchInProgress = False, update_queue = new_queue 3\<rparr>,
      fetch_task = False\<rparr>"

definition row_at :: "nat \<Rightarrow> board \<Rightarrow> scroll_time option" where
  "row_at p b =
     (if p = 0 then top_row b else if p = 1 then middle_row b
      else if p = 2 then bottom_row b else None)"

definition set_row :: "nat \<Rightarrow> scroll_time option \<Rightarrow> board \<Rightarrow> board" where
  "set_row p r b =
     (if p = 0 then b\<lparr>top_row := r\<rparr> else if p = 1 then b\<lparr>middle_row := r\<rparr>
      else if p = 2 then b\<lparr>bottom_row := r\<rparr> else b)"

text \<open>Python's truth value of \<open>self.outage_state\<close>: \<open>None\<close> and the empty string are false.\<close>

definition in_outage :: "board \<Rightarrow> bool" where
  "in_outage b = (case outage_state b of None \<Rightarrow> False | Some s \<Rightarrow> s \<noteq> [])"

text \<open>One statement after another: the second runs only when the first returned.\<close>

definition and_then ::
  "unit outcome \<times> board \<Rightarrow> (board \<Rightarrow> unit outcome \<times> board) \<Rightarrow> unit outcome \<times> board" where
  "and_then rb f = (case rb of (Returned u, b) \<Rightarrow> f b | (r, b) \<Rightarrow> (r, b))"

text \<open>
  The row object that \<open>self.partner\<close> of a row refers to. The rows are built together
  and torn down from the top, so the partner of a row is the row that the board holds
  at the position below it.
\<close>

definition partner_row_of :: "scroll_time \<Rightarrow> board \<Rightarrow> scroll_time option" where
  "partner_row_of r b = (case partner r of None \<Rightarrow> None | Some q \<Rightarrow> row_at q b)"

text \<open>
  \<open>self.<row>.changeCard(svc)\<close> for the row at position \<open>p\<close>; on \<open>None\<close> the attribute
  access raises \<open>AttributeError\<close>.
\<close>

definition row_changeCard :: "args \<Rightarrow> nat \<Rightarrow> service \<Rightarrow> board \<Rightarrow> unit outcome \<times> board" where
  "row_changeCard a p svc b =
     (case row_at p b of
        None \<Rightarrow> (Raised (AttributeError ''changeCard''), b)
      | Some r \<Rightarrow>
          (let (r1, sh1) = changeCard a svc (partner_row_of r b) (r, shared b)
           in (Returned (), set_row p (Some r1) (b\<lparr>shared := sh1\<rparr>))))"


text \<open>\<open>LiveTime.TimePassed()\<close> at the instant \<open>t\<close>.\<close>

definition TimePassed :: "args \<Rightarrow> int \<Rightarrow> fetch_state \<Rightarrow> bool" where
  "TimePassed a t lt = (if FetchInProgress lt then False else RequestLimit a < t - LastUpdate lt)"

text \<open>\<open>_schedule_fetch\<close>, called inside the running event loop: the task is created.\<close>

definition schedule_fetch :: "board \<Rightarrow> board" where
  "schedule_fetch b =
     (if fetch_task b then b
      else if FetchInProgress (live b) then b
      else b\<lparr>fetch_task := True\<rparr>)"

definition set_initial_cards :: "args \<Rightarrow> board \<Rightarrow> board" where
  "set_initial_cards a b =
     (let (pinned, rotating) = split_pinned_rotating (Services b);
          (t, sh1) = new_scroll_time a (case pinned of Some p \<Rightarrow> p | None \<Rightarrow> LiveTimeStud)
                       LiveTimeStud (scroll_delay b) 0 (shared b);
          svc2 = (if length rotating > 0 then rotating ! 0 else LiveTimeStud);
          (m, sh2) = new_scroll_time a svc2 LiveTimeStud (scroll_delay b) 1 sh1;
          svc3 = (if length rotating > 1 then rotating ! 1 else LiveTimeStud);
          (bt, sh3) = new_scroll_time a svc3 LiveTimeStud (scroll_delay b) 2 sh2
      in b\<lparr>top_row := Some (t\<lparr>partner := Some 1\<rparr>),
           middle_row := Some (m\<lparr>partner := Some 2\<rparr>),
           bottom_row := Some bt,
           shared := sh3,
           rotating_index := 0\<rparr>)"



text \<open>
  The \<open>for\<close> loop with \<open>enumerate\<close> and \<open>break\<close>: the first position of a record with
  the given ID.
\<close>

fun find_id :: "string \<Rightarrow> service list \<Rightarrow> nat option" where
  "find_id i [] = None"
| "find_id i (svc # rest) =
     (if ID svc = i then Some 0
      else (case find_id i rest of None \<Rightarrow> None | Some k \<Rightarrow> Some (k + 1)))"

text \<open>The nested loop over \<open>current_visible_ids\<close>: the first visible ID that is found.\<close>

fun find_visible :: "string list \<Rightarrow> service list \<Rightarrow> nat option" where
  "find_visible [] rotating = None"
| "find_visible (vis_id # rest) rotating =
     (case find_id vis_id rotating of
        Some k \<Rightarrow> Some k
      | None \<Rightarrow> find_visible rest rotating)"

definition shown_id :: "scroll_time option \<Rightarrow> string list" where
  "shown_id r =
     (case r of
        None \<Rightarrow> []
      | Some c \<Rightarrow> if ID (CurrentService c) \<noteq> ''0'' then [ID (CurrentService c)] else [])"

text \<open>
  The index \<open>new_rotating_index\<close> that \<open>update_display_with_new_data\<close> computes from
  the rows on display and the new rotating list.
\<close>

definition new_rotating_index :: "board \<Rightarrow> service list \<Rightarrow> nat" where
  "new_rotating_index b rotating =
     (let current_visible_ids =
            shown_id (top_row b) @ shown_id (middle_row b) @ shown_id (bottom_row b);
          current_middle_id = (case shown_id (middle_row b) of [] \<Rightarrow> None | i # _ \<Rightarrow> Some i)
      in if length rotating > 0 then
           (case (case current_middle_id of None \<Rightarrow> None | Some i \<Rightarrow> find_id i rotating) of
              Some k \<Rightarrow> k
            | None \<Rightarrow>
                if length current_visible_ids > 0
                then (case find_visible current_visible_ids rotating of
                        Some k \<Rightarrow> k
                      | None \<Rightarrow> rotating_index b)
                else rotating_index b)
         else rotating_index b)"

definition update_display_with_new_data :: "args \<Rightarrow> board \<Rightarrow> unit outcome \<times> board" where
  "update_display_with_new_data a b =
     (if top_row b = None then (Returned (), set_initial_cards a b)
      else
        (let (pinned, rotating) = split_pinned_rotating (Services b);
             top_id = (case top_row b of Some t \<Rightarrow> ID (CurrentService t) | None \<Rightarrow> []);
             next_top =
               (case pinned of
                  Some p \<Rightarrow> if FixToArrive a \<and> top_id \<noteq> ID p then Some p else None
                | None \<Rightarrow> if FixToArrive a then Some LiveTimeStud else None);
             idx = new_rotating_index b rotating;
             next_middle =
               (if length rotating > 0 then rotating ! (idx mod length rotating)
                else LiveTimeStud);
             next_bottom =
               (if length rotating > 1 then rotating ! ((idx + 1) mod length rotating)
                else LiveTimeStud);
             b1 = (if idx \<noteq> rotating_index b then b\<lparr>rotating_index := idx\<rparr> else b);
             change = (\<lambda>p next b.
               case row_at p b of
                 None \<Rightarrow> row_changeCard a p next b
               | Some c \<Rightarrow>
                   if ID (CurrentService c) \<noteq> ID next then row_changeCard a p next b
                   else (Returned (), b))
         in and_then
              (and_then
                 (case next_top of
                    Some svc \<Rightarrow> row_changeCard a 0 svc b1
                  | None \<Rightarrow> (Returned (), b1))
                 (change 1 next_middle))
              (change 2 next_bottom)))"


text \<open>
  The part of \<open>requestCardChange\<close> under \<open>display_lock\<close>, between setting and clearing
  \<open>rotating_update_pending\<close>.
\<close>

definition rotate_rows :: "args \<Rightarrow> service list \<Rightarrow> board \<Rightarrow> unit outcome \<times> board" where
  "rotate_rows a rotating b =
     (if length rotating = 0 then
        and_then (row_changeCard a 1 LiveTimeStud b) (row_changeCard a 2 LiveTimeStud)
      else if length rotating = 1 then
        and_then (row_changeCard a 1 (rotating ! 0) b) (row_changeCard a 2 LiveTimeStud)
      else
        (let idx_middle = rotating_index b mod length rotating;
             idx_bottom = (rotating_index b + 1) mod length rotating
         in and_then
              (and_then (row_changeCard a 1 (rotating ! idx_middle) b)
                 (row_changeCard a 2 (rotating ! idx_bottom)))
              (\<lambda>b2. (Returned (),
                 b2\<lparr>rotating_index := (rotating_index b2 + 1) mod length rotating\<rparr>))))"

text \<open>\<open>requestCardChange(card, row)\<close> at the instant \<open>t\<close>.\<close>

definition requestCardChange :: "args \<Rightarrow> int \<Rightarrow> nat \<Rightarrow> board \<Rightarrow> unit outcome \<times> board" where
  "requestCardChange a t row b =
     (if in_outage b then (Returned (), b)
      else if TimePassed a t (live b) then (Returned (), schedule_fetch b)
      else
        (let (pinned, rotating) = split_pinned_rotating (Services b) in
         if row = 1 \<and> FixToArrive a then
           (case top_row b of
              None \<Rightarrow> (Raised (AttributeError ''refresh''), b)
            | Some c \<Rightarrow> (Returned (), b\<lparr>shared := refresh c (shared b)\<rparr>))
         else if row \<noteq> 2 then (Returned (), b)
         else if rotating_update_pending b then (Returned (), b)
         else
           (case rotate_rows a rotating (b\<lparr>rotating_update_pending := True\<rparr>) of
              (res, b1) \<Rightarrow> (res, b1\<lparr>rotating_update_pending := False\<rparr>))))"




section \<open>The three-row system\<close>



text \<open>
  A row holds the scroll slot from the moment it leaves \<open>SCROLL_DECIDER\<close> for the
  horizontal scroll until the scroll is over.
\<close>

definition scrolling :: "scroll_time \<Rightarrow> bool" where
  "scrolling r = (state r = SCROLLING_WAIT \<or> state r = SCROLLING)"


text \<open>The synchroniser has the row at this position marked busy.\<close>

definition marked_busy :: "shared_state \<Rightarrow> nat \<Rightarrow> bool" where
  "marked_busy sh p = (map_of (synchronised sh) p = Some False)"


text \<open>
  The invariant of the system: every row sits at its own position, a row that holds the
  scroll slot is marked busy, and no two rows hold the slot.
\<close>

definition slot_inv :: "board \<Rightarrow> bool" where
  "slot_inv b =
     ((\<forall>p r. row_at p b = Some r \<longrightarrow>
         position r = p \<and> (scrolling r \<longrightarrow> marked_busy (shared b) p)) \<and>
      (\<forall>p q r s. row_at p b = Some r \<and> row_at q b = Some s \<and> scrolling r \<and> scrolling s
         \<longrightarrow> p = q))"


section \<open>Example data\<close>

text \<open>Concrete services and lists on which the theorems below are instantiated.\<close>

definition example_service :: "string \<Rightarrow> string \<Rightarrow> int \<Rightarrow> service" where
  "example_service journey line t =
     \<lparr>ID = journey, ServiceNumber = line, Destination = ''Bern'', Via = ''Wankdorf'',
      DisplayTime = ''5'', SchArrival = Some t, ExptArrival = None\<rparr>"

definition example_services :: "service list" where
  "example_services =
     [example_service ''A'' ''10'' 120, example_service ''B'' ''12'' 540,
      example_service ''B'' ''12'' 560, example_service ''A'' ''10'' 600,
      example_service ''C'' ''19'' 1200]"

definition example_args :: args where
  "example_args =
     \<lparr>Speed = 1, Delay = 2, RequestLimit = 60, ReducedAnimations = False,
      FixToArrive = True, destination_width = (\<lambda>svc. 100)\<rparr>"


definition svcA :: service where "svcA = example_service ''A'' ''10'' 120"

definition svcB :: service where "svcB = example_service ''B'' ''12'' 540"

definition svcC :: service where "svcC = example_service ''C'' ''19'' 1200"

definition three_services :: "service list" where
  "three_services = [svcA, svcB, svcC]"

definition two_services :: "service list" where
  "two_services = [svcA, svcB]"

text \<open>
  A row that has finished its reveal and shows the given service, and the shared state
  of three such rows.
\<close>

definition example_row :: "nat \<Rightarrow> service \<Rightarrow> scroll_time" where
  "example_row p svc =
     \<lparr>position = p, CurrentService = svc, state = SCROLL_DECIDER, ticks = 0, delay = 2,
      speed = 1, image_x_pos = 0, image_y_posA = 0, max_pos = 100,
      partner = (if p < 2 then Some (p + 1) else None), IStaticOld = None,
      rectangle = \<lparr>ref = 4 * p, picture = RectangleCover, at_row = p + 1\<rparr>,
      IDestination = \<lparr>ref = 4 * p + 1, picture = DestinationImage svc, at_row = p\<rparr>,
      IServiceNumber =
        \<lparr>ref = 4 * p + 2, picture = ServiceNumberImage (ServiceNumber svc), at_row = p\<rparr>,
      IDisplayTime =
        \<lparr>ref = 4 * p + 3, picture = DisplayTimeImage (DisplayTime svc), at_row = p\<rparr>\<rparr>"

definition example_shared :: "service \<Rightarrow> service \<Rightarrow> service \<Rightarrow> shared_state" where
  "example_shared s0 s1 s2 =
     \<lparr>composed_images =
        [IDestination (example_row 0 s0), IServiceNumber (example_row 0 s0),
         IDisplayTime (example_row 0 s0),
         IDestination (example_row 1 s1), IServiceNumber (example_row 1 s1),
         IDisplayTime (example_row 1 s1),
         IDestination (example_row 2 s2), IServiceNumber (example_row 2 s2),
         IDisplayTime (example_row 2 s2)],
      synchronised = [(0, True), (1, True), (2, True)],
      next_ref = 12\<rparr>"

text \<open>A board whose three rows show the given services, with the given service list.\<close>

definition steady_board :: "service list \<Rightarrow> service \<Rightarrow> service \<Rightarrow> service \<Rightarrow> board" where
  "steady_board svcs s0 s1 s2 =
     (new_board 2)
       \<lparr>top_row := Some (example_row 0 s0), middle_row := Some (example_row 1 s1),
        bottom_row := Some (example_row 2 s2), shared := example_shared s0 s1 s2,
        Services := svcs\<rparr>"

definition shared_ABC :: shared_state where "shared_ABC = example_shared svcA svcB svcC"

definition board_ABC :: board where
  "board_ABC = steady_board three_services svcA svcB svcC"

definition board_AB :: board where
  "board_AB = steady_board two_services svcA svcB LiveTimeStud"

text \<open>
  The board after new data in which only the services A and C are left: the rows still
  show A, B and C.
\<close>

definition board_AC :: board where
  "board_AC = steady_board [svcA, svcC] svcA svcB svcC"

definition args_unpinned :: args where
  "args_unpinned = example_args\<lparr>FixToArrive := False\<rparr>"

definition board_ACB :: board where
  "board_ACB = steady_board three_services svcA svcC svcB"










section \<open>Properties of the partition\<close>

lemma unique_loop_unique_from:
  "unique_loop xs acc seen = acc @ unique_from seen xs"
  by (induction xs arbitrary: acc seen) simp_all

lemma unique_from_filter:
  "unique_from seen (filter (\<lambda>svc. ID svc \<noteq> p) xs) = unique_from (insert p seen) xs"
  by (induction xs arbitrary: seen) (simp_all add: insert_commute)

lemma split_pinned_rotating_Cons:
  "split_pinned_rotating (x # xs) = (Some x, unique_from {ID x} xs)"
  by (simp add: split_pinned_rotating_def unique_loop_unique_from unique_from_filter)

lemma unique_from_set: "set (unique_from seen xs) \<subseteq> set xs"
  by (induction xs arbitrary: seen) auto

lemma unique_from_ids: "ID ` set (unique_from seen xs) \<inter> seen = {}"
proof (induction xs arbitrary: seen)
  case Nil
  show ?case by simp
next
  case (Cons svc rest)
  have "ID ` set (unique_from (insert (ID svc) seen) rest) \<inter> insert (ID svc) seen = {}"
    by (rule Cons.IH)
  with Cons.IH [of seen] show ?case by auto
qed

lemma unique_from_distinct: "distinct (map ID (unique_from seen xs))"
proof (induction xs arbitrary: seen)
  case Nil
  show ?case by simp
next
  case (Cons svc rest)
  have "ID ` set (unique_from (insert (ID svc) seen) rest) \<inter> insert (ID svc) seen = {}"
    by (rule unique_from_ids)
  then have "ID svc \<notin> ID ` set (unique_from (insert (ID svc) seen) rest)"
    by blast
  with Cons.IH show ?case by simp
qed

lemma unique_from_subseq: "subseq (unique_from seen xs) xs"
  by (induction xs arbitrary: seen) auto

lemma unique_from_sorted_wrt:
  "sorted_wrt R xs \<Longrightarrow> sorted_wrt R (unique_from seen xs)"
proof (induction xs arbitrary: seen)
  case Nil
  show ?case by simp
next
  case (Cons svc rest)
  from Cons.prems have h: "\<forall>y \<in> set rest. R svc y" and r: "sorted_wrt R rest"
    by simp_all
  from h unique_from_set [of "insert (ID svc) seen" rest]
  have "\<forall>y \<in> set (unique_from (insert (ID svc) seen) rest). R svc y"
    by blast
  with Cons.IH [OF r] show ?case by simp
qed

lemma upt_Suc_shift: "[0..<Suc n] = 0 # map Suc [0..<n]"
  by (simp only: upt_conv_Cons [OF zero_less_Suc] map_Suc_upt)

lemma unique_from_index:
  "unique_from seen xs =
     map (\<lambda>j. xs ! j)
       (filter (\<lambda>j. ID (xs ! j) \<notin> seen \<and> (\<forall>k<j. ID (xs ! k) \<noteq> ID (xs ! j))) [0..<length xs])"
proof (induction xs arbitrary: seen)
  case Nil
  show ?case by simp
next
  case (Cons svc rest)
  have shift: "\<And>P j. (\<forall>k<Suc j. P k) = (P 0 \<and> (\<forall>k<j. P (Suc k)))"
    by (metis less_Suc_eq_0_disj)
  show ?case
  proof (cases "ID svc \<in> seen")
    case True
    have "\<And>j. (ID (rest ! j) \<notin> seen \<and> ID svc \<noteq> ID (rest ! j) \<and> (\<forall>k<j. ID (rest ! k) \<noteq> ID (rest ! j)))
        = (ID (rest ! j) \<notin> seen \<and> (\<forall>k<j. ID (rest ! k) \<noteq> ID (rest ! j)))"
      using True by auto
    with True show ?thesis
      by (simp add: upt_Suc_shift filter_map comp_def shift Cons.IH [of seen] del: upt_Suc)
  next
    case False
    have "\<And>j. (ID (rest ! j) \<notin> seen \<and> ID svc \<noteq> ID (rest ! j) \<and> (\<forall>k<j. ID (rest ! k) \<noteq> ID (rest ! j)))
        = (ID (rest ! j) \<notin> insert (ID svc) seen \<and> (\<forall>k<j. ID (rest ! k) \<noteq> ID (rest ! j)))"
      by auto
    with False show ?thesis
      by (simp add: upt_Suc_shift filter_map comp_def shift Cons.IH [of "insert (ID svc) seen"] del: upt_Suc)
  qed
qed

lemma kept_in_tail_iff:
  "kept_in_tail p tail = (\<lambda>j. ID (tail ! j) \<notin> {p} \<and> (\<forall>k<j. ID (tail ! k) \<noteq> ID (tail ! j)))"
  by (auto simp add: kept_in_tail_def list_all_iff fun_eq_iff)

lemma split_rotating_first_occurrences:
  "snd (split_pinned_rotating services) = first_occurrences_of_tail services"
proof (cases services)
  case Nil
  then show ?thesis
    by (simp add: split_pinned_rotating_def first_occurrences_of_tail_def)
next
  case (Cons x xs)
  then show ?thesis
    by (simp add: split_pinned_rotating_Cons first_occurrences_of_tail_def
        unique_from_index [of "{x}" for x] kept_in_tail_iff)
qed

lemma example_services_sorted: "sorted_by_arrival example_services"
  by (simp add: sorted_by_arrival_def example_services_def example_service_def
      arrives_no_later_def arrival_key_def)

lemma example_services_split:
  "split_pinned_rotating example_services =
     (Some (example_service ''A'' ''10'' 120),
      [example_service ''B'' ''12'' 540, example_service ''C'' ''19'' 1200])"
  by (simp add: split_pinned_rotating_def example_services_def example_service_def)

text \<open>
  C1. For a non-empty service list sorted ascending by estimated-or-scheduled arrival,
  \<open>split_pinned_rotating\<close> returns as pinned the head of the list, which no later record
  precedes in arrival, and a rotating list in which no record has the pinned ID and no
  two records share an ID; for the empty list it returns \<open>(None, [])\<close>.
\<close>

theorem split_pinned_rotating_partition:
  "split_pinned_rotating [] = (None, []) \<and>
   (services \<noteq> [] \<and> sorted_by_arrival services \<longrightarrow>
      fst (split_pinned_rotating services) = Some (hd services) \<and>
      (\<forall>s \<in> set (tl services). arrives_no_later (hd services) s) \<and>
      (\<forall>s \<in> set (snd (split_pinned_rotating services)). ID s \<noteq> ID (hd services)) \<and>
      distinct (map ID (snd (split_pinned_rotating services))))"
proof (intro conjI impI)
  show "split_pinned_rotating [] = (None, [])"
    by (simp add: split_pinned_rotating_def)
next
  assume h: "services \<noteq> [] \<and> sorted_by_arrival services"
  then obtain x xs where eq: "services = x # xs"
    by (cases services) auto
  have ids: "ID ` set (unique_from {ID x} xs) \<inter> {ID x} = {}"
    by (rule unique_from_ids)
  show "fst (split_pinned_rotating services) = Some (hd services)"
    by (simp add: eq split_pinned_rotating_Cons)
  show "\<forall>s \<in> set (tl services). arrives_no_later (hd services) s"
    using h by (simp add: eq sorted_by_arrival_def)
  show "\<forall>s \<in> set (snd (split_pinned_rotating services)). ID s \<noteq> ID (hd services)"
  proof
    fix s assume "s \<in> set (snd (split_pinned_rotating services))"
    then have "ID s \<in> ID ` set (unique_from {ID x} xs)"
      by (simp add: eq split_pinned_rotating_Cons)
    with ids show "ID s \<noteq> ID (hd services)"
      by (auto simp add: eq)
  qed
  show "distinct (map ID (snd (split_pinned_rotating services)))"
    by (simp add: eq split_pinned_rotating_Cons unique_from_distinct)
qed

theorem split_pinned_rotating_partition_witness:
  "example_services \<noteq> [] \<and> sorted_by_arrival example_services \<and>
   split_pinned_rotating example_services =
     (Some (example_service ''A'' ''10'' 120),
      [example_service ''B'' ''12'' 540, example_service ''C'' ''19'' 1200]) \<and>
   fst (split_pinned_rotating example_services) = Some (hd example_services) \<and>
   list_all (arrives_no_later (hd example_services)) (tl example_services) \<and>
   list_all (\<lambda>s. ID s \<noteq> ID (hd example_services))
     (snd (split_pinned_rotating example_services)) \<and>
   distinct (map ID (snd (split_pinned_rotating example_services)))"
proof -
  have ne: "example_services \<noteq> []"
    by (simp add: example_services_def)
  from split_pinned_rotating_partition [of example_services] ne example_services_sorted
    example_services_split
  show ?thesis unfolding list_all_iff by blast
qed

text \<open>
  C10. \<open>split_pinned_rotating\<close> preserves relative order: the rotating list is the
  subsequence of the records after the head that keeps the first occurrence of each ID
  and drops the records with the pinned ID; so when the service list is sorted ascending
  by estimated-or-scheduled arrival, the rotating list is sorted ascending too.
\<close>

theorem split_pinned_rotating_order:
  "snd (split_pinned_rotating services) = first_occurrences_of_tail services \<and>
   subseq (snd (split_pinned_rotating services)) (tl services) \<and>
   (sorted_by_arrival services \<longrightarrow> sorted_by_arrival (snd (split_pinned_rotating services)))"
proof (cases services)
  case Nil
  then show ?thesis
    by (simp add: split_pinned_rotating_def first_occurrences_of_tail_def sorted_by_arrival_def)
next
  case (Cons x xs)
  have rot: "snd (split_pinned_rotating services) = unique_from {ID x} xs"
    by (simp add: Cons split_pinned_rotating_Cons)
  have a: "snd (split_pinned_rotating services) = first_occurrences_of_tail services"
    by (rule split_rotating_first_occurrences)
  have b: "subseq (snd (split_pinned_rotating services)) (tl services)"
    unfolding rot by (simp add: Cons unique_from_subseq)
  have c: "sorted_by_arrival services \<longrightarrow>
      sorted_by_arrival (snd (split_pinned_rotating services))"
    unfolding rot by (simp add: Cons sorted_by_arrival_def unique_from_sorted_wrt)
  from a b c show ?thesis by blast
qed

theorem split_pinned_rotating_order_witness:
  "sorted_by_arrival example_services \<and>
   snd (split_pinned_rotating example_services) =
     [example_service ''B'' ''12'' 540, example_service ''C'' ''19'' 1200] \<and>
   first_occurrences_of_tail example_services =
     [example_service ''B'' ''12'' 540, example_service ''C'' ''19'' 1200] \<and>
   sorted_by_arrival (snd (split_pinned_rotating example_services))"
proof -
  have s: "snd (split_pinned_rotating example_services) =
      [example_service ''B'' ''12'' 540, example_service ''C'' ''19'' 1200]"
    by (simp add: example_services_split)
  from split_pinned_rotating_order [of example_services]
  have t: "snd (split_pinned_rotating example_services) =
        first_occurrences_of_tail example_services"
    and u: "sorted_by_arrival example_services \<longrightarrow>
        sorted_by_arrival (snd (split_pinned_rotating example_services))"
    by blast+
  from t s have "first_occurrences_of_tail example_services =
      [example_service ''B'' ''12'' 540, example_service ''C'' ''19'' 1200]"
    by simp
  with u s example_services_sorted show ?thesis by blast
qed

section \<open>Properties of the update queue\<close>

lemma drain_returns:
  "length (items q) \<le> unfinished_tasks q \<Longrightarrow>
   drain q =
     (Returned (),
      q\<lparr>items := [], unfinished_tasks := unfinished_tasks q - length (items q)\<rparr>)"
proof (induction q rule: drain.induct)
  case (1 q)
  show ?case
  proof (cases "items q")
    case Nil
    then show ?thesis
      by (subst drain.simps) (simp add: queue_empty_def)
  next
    case (Cons x xs)
    let ?q1 = "q\<lparr>items := xs\<rparr>"
    let ?q2 = "?q1\<lparr>unfinished_tasks := unfinished_tasks ?q1 - 1\<rparr>"
    from Cons "1.prems" have pos: "unfinished_tasks q \<noteq> 0"
      by auto
    have g: "get_nowait q = (Returned x, ?q1)"
      by (simp add: get_nowait_def Cons)
    have t: "task_done ?q1 = (Returned (), ?q2)"
      using pos by (simp add: task_done_def)
    have ne: "\<not> queue_empty q"
      by (simp add: queue_empty_def Cons)
    have le: "length (items ?q2) \<le> unfinished_tasks ?q2"
      using Cons "1.prems" by simp
    have "drain ?q2 =
        (Returned (),
         ?q2\<lparr>items := [], unfinished_tasks := unfinished_tasks ?q2 - length (items ?q2)\<rparr>)"
      using "1.IH" [OF ne g [symmetric] refl t [symmetric] refl le] .
    moreover have "drain q = drain ?q2"
      using ne g t by (subst drain.simps) simp
    ultimately show ?thesis
      using Cons by simp
  qed
qed

lemma enqueue_update_returns:
  "length (items q) \<le> unfinished_tasks q \<Longrightarrow>
   enqueue_update item q =
     (Returned (),
      q\<lparr>items := [item], unfinished_tasks := unfinished_tasks q - length (items q) + 1\<rparr>)"
  by (simp add: enqueue_update_def drain_returns put_def queue_full_def)

lemma queue_step_inv:
  assumes inv: "queue_inv s"
  shows "\<exists>s1. queue_step op s = (Returned (), s1) \<and> queue_inv s1
     \<and> (\<forall>x. op = Enqueue x \<longrightarrow> items (fst s1) = [x])"
proof (cases s)
  case (Pair q taken)
  show ?thesis
  proof (cases op)
    case (Enqueue x)
    from inv Pair have "length (items q) \<le> unfinished_tasks q"
      by (simp add: queue_inv_def)
    from enqueue_update_returns [OF this, of x] inv Pair Enqueue show ?thesis
      by (simp add: queue_inv_def)
  next
    case ConsumerGet
    with inv Pair show ?thesis
      by (cases "items q") (auto simp add: queue_inv_def queue_empty_def get_nowait_def)
  next
    case ConsumerTaskDone
    with inv Pair show ?thesis
      by (auto simp add: queue_inv_def task_done_def)
  qed
qed

lemma queue_run_inv:
  "queue_inv s \<Longrightarrow> \<exists>s1. queue_run ops s = (Returned (), s1) \<and> queue_inv s1"
proof (induction ops arbitrary: s)
  case Nil
  then show ?case by simp
next
  case (Cons op ops)
  from queue_step_inv [OF Cons.prems, of op] obtain s1
    where "queue_step op s = (Returned (), s1)" and "queue_inv s1" by blast
  with Cons.IH [of s1] show ?case by simp
qed

lemma queue_run_append:
  "queue_run ops s = (Returned (), s1) \<Longrightarrow> queue_run (ops @ ops') s = queue_run ops' s1"
  by (induction ops arbitrary: s) (auto split: outcome.splits prod.splits)

text \<open>
  C6. For every sequence of enqueue operations on the board's queue, interleaved in any
  way with the consumer taking items and marking them done, every call returns, the
  queue never holds more than one item, and right after a call of \<open>_enqueue_update\<close> it
  holds exactly the item of that call.
\<close>

theorem enqueue_update_single_slot:
  "(\<exists>q taken. queue_run ops (new_queue n, 0) = (Returned (), q, taken) \<and>
      length (items q) \<le> 1) \<and>
   (\<exists>q taken. queue_run (ops @ [Enqueue x]) (new_queue n, 0) = (Returned (), q, taken) \<and>
      items q = [x])"
proof -
  have init: "queue_inv (new_queue n, 0)"
    by (simp add: queue_inv_def new_queue_def)
  from queue_run_inv [OF init, of ops] obtain s1
    where r: "queue_run ops (new_queue n, 0) = (Returned (), s1)" and i: "queue_inv s1"
    by blast
  from queue_step_inv [OF i, of "Enqueue x"] obtain s2
    where st: "queue_step (Enqueue x) s1 = (Returned (), s2)" and it: "items (fst s2) = [x]"
    by blast
  have "queue_run (ops @ [Enqueue x]) (new_queue n, 0) = (Returned (), s2)"
    using queue_run_append [OF r, of "[Enqueue x]"] st by simp
  with r i it show ?thesis
    by (cases s1; cases s2) (auto simp add: queue_inv_def)
qed

lemma queue_run_example:
  "queue_run [Enqueue (1::nat), Enqueue 2, ConsumerGet, Enqueue 3, ConsumerTaskDone, Enqueue 4]
     (new_queue 3, 0) =
   (Returned (), \<lparr>items = [4], maxsize = 3, unfinished_tasks = 1\<rparr>, 0)"
  by code_simp

theorem enqueue_update_single_slot_witness:
  "(\<exists>q taken.
      queue_run [Enqueue (1::nat), Enqueue 2, ConsumerGet, Enqueue 3, ConsumerTaskDone]
        (new_queue 3, 0) = (Returned (), q, taken) \<and> length (items q) \<le> 1) \<and>
   (\<exists>q taken.
      queue_run ([Enqueue (1::nat), Enqueue 2, ConsumerGet, Enqueue 3, ConsumerTaskDone] @
          [Enqueue 4]) (new_queue 3, 0) = (Returned (), q, taken) \<and> items q = [4])"
  by (rule enqueue_update_single_slot)

section \<open>Properties of the fetch pipeline\<close>










section \<open>Properties of a row\<close>

lemma add_image_simps [simp]:
  "synchronised (add_image i sh) = synchronised sh"
  "next_ref (add_image i sh) = next_ref sh"
  "composed_images (add_image i sh) = composed_images sh @ [i]"
  by (simp_all add: add_image_def)

lemma safe_remove_image_simps [simp]:
  "synchronised (safe_remove_image i sh) = synchronised sh"
  "next_ref (safe_remove_image i sh) = next_ref sh"
  by (simp_all add: safe_remove_image_def remove_image_def)

lemma remove_image_simps [simp]:
  "synchronised (snd (remove_image i sh)) = synchronised sh"
  "next_ref (snd (remove_image i sh)) = next_ref sh"
  by (simp_all add: remove_image_def)

lemma busy_simps [simp]:
  "synchronised (busy p sh) = AList.update p False (synchronised sh)"
  "next_ref (busy p sh) = next_ref sh"
  "composed_images (busy p sh) = composed_images sh"
  by (simp_all add: busy_def)

lemma ready_simps [simp]:
  "synchronised (ready p sh) = AList.update p True (synchronised sh)"
  "next_ref (ready p sh) = next_ref sh"
  "composed_images (ready p sh) = composed_images sh"
  by (simp_all add: ready_def)

lemma forget_simps [simp]:
  "synchronised (forget p sh) = AList.delete p (synchronised sh)"
  "next_ref (forget p sh) = next_ref sh"
  "composed_images (forget p sh) = composed_images sh"
  by (simp_all add: forget_def)

lemma new_image_simps [simp]:
  "fst (new_image pic p sh) = \<lparr>ref = next_ref sh, picture = pic, at_row = p\<rparr>"
  "synchronised (snd (new_image pic p sh)) = synchronised sh"
  "next_ref (snd (new_image pic p sh)) = next_ref sh + 1"
  "composed_images (snd (new_image pic p sh)) = composed_images sh"
  by (simp_all add: new_image_def)

lemma refresh_simps [simp]:
  "synchronised (refresh r sh) = synchronised sh"
  "next_ref (refresh r sh) = next_ref sh"
  by (simp_all add: refresh_def Let_def)

lemma generateCard_row [simp]:
  "position (fst (generateCard svc (r, sh))) = position r"
  "state (fst (generateCard svc (r, sh))) = state r"
  "CurrentService (fst (generateCard svc (r, sh))) = CurrentService r"
  "partner (fst (generateCard svc (r, sh))) = partner r"
  "IStaticOld (fst (generateCard svc (r, sh))) = IStaticOld r"
  "rectangle (fst (generateCard svc (r, sh))) = rectangle r"
  by (simp_all add: generateCard_def split_def Let_def)

lemma generateCard_images:
  "IDestination (fst (generateCard svc (r, sh))) =
     \<lparr>ref = next_ref sh, picture = DestinationImage svc, at_row = position r\<rparr>"
  "IServiceNumber (fst (generateCard svc (r, sh))) =
     \<lparr>ref = next_ref sh + 1, picture = ServiceNumberImage (ServiceNumber svc),
      at_row = position r\<rparr>"
  "IDisplayTime (fst (generateCard svc (r, sh))) =
     \<lparr>ref = next_ref sh + 2, picture = DisplayTimeImage (DisplayTime svc),
      at_row = position r\<rparr>"
  by (simp_all add: generateCard_def split_def Let_def)

lemma generateCard_shared [simp]:
  "synchronised (snd (generateCard svc (r, sh))) = synchronised sh"
  "next_ref (snd (generateCard svc (r, sh))) = next_ref sh + 3"
  "composed_images (snd (generateCard svc (r, sh))) = composed_images sh"
  by (simp_all add: generateCard_def split_def Let_def)

lemma changeCard_row:
  "position (fst (changeCard a svc pr (r, sh))) = position r"
  "partner (fst (changeCard a svc pr (r, sh))) = partner r"
  "CurrentService (fst (changeCard a svc pr (r, sh))) =
     (if both_empty svc r then CurrentService r else svc)"
  "state (fst (changeCard a svc pr (r, sh))) =
     (if both_empty svc r then STUD else if ID svc = ''0'' then WAIT_STUD else WAIT_OPENING)"
  by (simp_all add: changeCard_def split_def Let_def)


lemma changeCard_both_empty:
  "both_empty svc r \<Longrightarrow>
   changeCard a svc pr (r, sh) = (r\<lparr>state := STUD\<rparr>, ready (position r) sh)"
  by (simp add: changeCard_def)

lemma changeCard_images:
  "\<not> both_empty svc r \<Longrightarrow>
   IDestination (fst (changeCard a svc pr (r, sh))) =
     \<lparr>ref = next_ref sh + 1, picture = DestinationImage svc, at_row = position r\<rparr> \<and>
   IServiceNumber (fst (changeCard a svc pr (r, sh))) =
     \<lparr>ref = next_ref sh + 2, picture = ServiceNumberImage (ServiceNumber svc),
      at_row = position r\<rparr> \<and>
   IDisplayTime (fst (changeCard a svc pr (r, sh))) =
     \<lparr>ref = next_ref sh + 3, picture = DisplayTimeImage (DisplayTime svc),
      at_row = position r\<rparr> \<and>
   IStaticOld (fst (changeCard a svc pr (r, sh))) =
     Some \<lparr>ref = next_ref sh, picture = StaticTextImage svc (CurrentService r),
           at_row = position r\<rparr> \<and>
   max_pos (fst (changeCard a svc pr (r, sh))) = destination_width a svc"
  by (cases pr) (simp_all add: changeCard_def split_def Let_def generateCard_images)

lemma remove_ref_keeps:
  "x \<in> set xs \<Longrightarrow> ref x \<noteq> k \<Longrightarrow> x \<in> set (remove_ref k xs)"
  by (induction xs) auto

lemma remove_ref_subset: "set (remove_ref k xs) \<subseteq> set xs"
  by (induction xs) auto

lemma safe_remove_image_keeps:
  "x \<in> set (composed_images sh) \<Longrightarrow> ref x \<noteq> ref i \<Longrightarrow>
   x \<in> set (composed_images (safe_remove_image i sh))"
  by (simp add: safe_remove_image_def remove_image_def remove_ref_keeps)

lemma refresh_keeps:
  "x \<in> set (composed_images sh) \<Longrightarrow> ref x \<noteq> ref (IDestination p) \<Longrightarrow>
   ref x \<noteq> ref (IServiceNumber p) \<Longrightarrow> ref x \<noteq> ref (IDisplayTime p) \<Longrightarrow>
   x \<in> set (composed_images (refresh p sh))"
  by (simp add: refresh_def Let_def safe_remove_image_keeps)

lemma changeCard_adds_banner:
  assumes ne: "\<not> both_empty svc r"
    and al: "allocated sh r"
    and alp: "case pr of None \<Rightarrow> True | Some p \<Rightarrow> allocated sh p"
  shows "\<lparr>ref = next_ref sh, picture = StaticTextImage svc (CurrentService r),
           at_row = position r\<rparr> \<in> set (banners (snd (changeCard a svc pr (r, sh))))"
proof (cases pr)
  case None
  show ?thesis
    using ne al
    by (simp add: None changeCard_def split_def Let_def banners_def allocated_def
        safe_remove_image_keeps)
next
  case (Some p)
  from alp Some have "allocated sh p" by simp
  with ne al show ?thesis
    by (simp add: Some changeCard_def split_def Let_def banners_def allocated_def
        safe_remove_image_keeps refresh_keeps)
qed

lemma updateCard_state:
  "state (fst (snd (updateCard svc (r, sh)))) = SCROLL_DECIDER"
  by (simp add: updateCard_def Let_def split_def remove_image_def)



lemma updateCard_banners:
  "set (banners (snd (snd (updateCard svc (r, sh))))) \<subseteq> set (banners sh)"
  using remove_ref_subset [of "ref (IDisplayTime r)" "composed_images sh"]
  by (auto simp add: updateCard_def Let_def split_def remove_image_def banners_def)


lemma example_allocated:
  "p < 3 \<Longrightarrow> allocated (example_shared s0 s1 s2) (example_row p svc)"
  by (simp add: allocated_def example_shared_def example_row_def)

text \<open>
  C7, as amended. \<open>updateCard\<close> never starts the banner slide: whatever the service, the
  row goes to \<open>SCROLL_DECIDER\<close>, not to \<open>WAIT_OPENING\<close> or \<open>WAIT_STUD\<close>, and every
  two-line banner in the composition afterwards was there before. \<open>changeCard\<close> starts
  the banner slide whenever the new service has a different ID, and also when it has the
  same ID and is not the empty sentinel: the row goes to \<open>WAIT_OPENING\<close> or \<open>WAIT_STUD\<close>
  and a new two-line banner is in the composition.
\<close>

theorem updateCard_keeps_changeCard_slides:
  "state (fst (snd (updateCard svc (r, sh)))) = SCROLL_DECIDER \<and>
   set (banners (snd (snd (updateCard svc (r, sh))))) \<subseteq> set (banners sh) \<and>
   ((ID svc \<noteq> ID (CurrentService r) \<or> ID svc \<noteq> ''0'') \<and> allocated sh r \<and>
    (case pr of None \<Rightarrow> True | Some p \<Rightarrow> allocated sh p) \<longrightarrow>
      state (fst (changeCard a svc pr (r, sh))) \<in> {WAIT_OPENING, WAIT_STUD} \<and>
      \<lparr>ref = next_ref sh, picture = StaticTextImage svc (CurrentService r),
        at_row = position r\<rparr> \<in> set (banners (snd (changeCard a svc pr (r, sh)))))"
proof (intro conjI impI)
  show "state (fst (snd (updateCard svc (r, sh)))) = SCROLL_DECIDER"
    by (rule updateCard_state)
  show "set (banners (snd (snd (updateCard svc (r, sh))))) \<subseteq> set (banners sh)"
    by (rule updateCard_banners)
next
  assume h: "(ID svc \<noteq> ID (CurrentService r) \<or> ID svc \<noteq> ''0'') \<and> allocated sh r \<and>
    (case pr of None \<Rightarrow> True | Some p \<Rightarrow> allocated sh p)"
  then have ne: "\<not> both_empty svc r"
    by (auto simp add: both_empty_def)
  from h have al: "allocated sh r" by simp
  from h have alp: "case pr of None \<Rightarrow> True | Some p \<Rightarrow> allocated sh p" by simp
  show "state (fst (changeCard a svc pr (r, sh))) \<in> {WAIT_OPENING, WAIT_STUD}"
    using ne by (simp add: changeCard_row)
  show "\<lparr>ref = next_ref sh, picture = StaticTextImage svc (CurrentService r),
        at_row = position r\<rparr> \<in> set (banners (snd (changeCard a svc pr (r, sh))))"
    by (rule changeCard_adds_banner [OF ne al alp])
qed

lemma example_ids [simp]:
  "ID svcA = ''A''" "ID svcB = ''B''" "ID svcC = ''C''" "ID LiveTimeStud = ''0''"
  by (simp_all add: svcA_def svcB_def svcC_def example_service_def LiveTimeStud_def)

lemma example_row_simps [simp]:
  "CurrentService (example_row p svc) = svc"
  "position (example_row p svc) = p"
  "state (example_row p svc) = SCROLL_DECIDER"
  by (simp_all add: example_row_def)

lemma shared_ABC_simps [simp]:
  "next_ref shared_ABC = 12"
  "synchronised shared_ABC = [(0, True), (1, True), (2, True)]"
  "p < 3 \<Longrightarrow> allocated shared_ABC (example_row p svc)"
  by (simp_all add: shared_ABC_def example_allocated) (simp_all add: example_shared_def)

theorem updateCard_keeps_changeCard_slides_witness:
  "ID svcC \<noteq> ID (CurrentService (example_row 1 svcB)) \<and>
   allocated shared_ABC (example_row 1 svcB) \<and>
   allocated shared_ABC (example_row 2 svcC) \<and>
   state (fst (changeCard example_args svcC (Some (example_row 2 svcC))
       (example_row 1 svcB, shared_ABC))) = WAIT_OPENING \<and>
   \<lparr>ref = 12, picture = StaticTextImage svcC svcB, at_row = 1\<rparr>
     \<in> set (banners (snd (changeCard example_args svcC (Some (example_row 2 svcC))
       (example_row 1 svcB, shared_ABC))))"
proof -
  have s: "state (fst (changeCard example_args svcC (Some (example_row 2 svcC))
       (example_row 1 svcB, shared_ABC))) \<noteq> WAIT_STUD"
    by (simp add: changeCard_row both_empty_def)
  from updateCard_keeps_changeCard_slides [of svcC "example_row 1 svcB" shared_ABC
      "Some (example_row 2 svcC)" example_args] s
  show ?thesis by simp
qed

text \<open>
  The claim as stated fails where it says that only a different ID starts the banner
  slide: \<open>changeCard\<close> with the ID the row already shows starts it too.
\<close>

theorem changeCard_same_id_slides:
  "ID svcB = ID (CurrentService (example_row 1 svcB)) \<and>
   state (fst (changeCard example_args svcB (Some (example_row 2 svcC))
       (example_row 1 svcB, shared_ABC))) = WAIT_OPENING \<and>
   \<lparr>ref = 12, picture = StaticTextImage svcB svcB, at_row = 1\<rparr>
     \<in> set (banners (snd (changeCard example_args svcB (Some (example_row 2 svcC))
       (example_row 1 svcB, shared_ABC))))"
proof -
  have ne: "\<not> both_empty svcB (example_row 1 svcB)"
    by (simp add: both_empty_def)
  have al: "allocated shared_ABC (example_row 1 svcB)"
    by simp
  have alp: "case Some (example_row 2 svcC) of None \<Rightarrow> True
      | Some p \<Rightarrow> allocated shared_ABC p"
    by simp
  from changeCard_adds_banner [where a = example_args, OF ne al alp]
  have "\<lparr>ref = 12, picture = StaticTextImage svcB svcB, at_row = 1\<rparr>
     \<in> set (banners (snd (changeCard example_args svcB (Some (example_row 2 svcC))
       (example_row 1 svcB, shared_ABC))))"
    by simp
  then show ?thesis
    by (simp add: changeCard_row both_empty_def)
qed

text \<open>
  C8, as amended. When the new service and the current one are not both the empty
  sentinel, \<open>changeCard\<close> replaces the service of the row by the new one, builds new
  destination, number and time images from it, puts the two-line banner of the new and
  the previous service into the composition, and takes the row to \<open>WAIT_OPENING\<close> when
  the new service is not empty and to \<open>WAIT_STUD\<close> when it is. When both are the empty
  sentinel, it only takes the row to \<open>STUD\<close> and marks it ready.
\<close>

theorem changeCard_replaces_card:
  "(\<not> both_empty svc r \<and> allocated sh r \<and>
    (case pr of None \<Rightarrow> True | Some p \<Rightarrow> allocated sh p) \<longrightarrow>
      CurrentService (fst (changeCard a svc pr (r, sh))) = svc \<and>
      IDestination (fst (changeCard a svc pr (r, sh))) =
        \<lparr>ref = next_ref sh + 1, picture = DestinationImage svc, at_row = position r\<rparr> \<and>
      IServiceNumber (fst (changeCard a svc pr (r, sh))) =
        \<lparr>ref = next_ref sh + 2, picture = ServiceNumberImage (ServiceNumber svc),
          at_row = position r\<rparr> \<and>
      IDisplayTime (fst (changeCard a svc pr (r, sh))) =
        \<lparr>ref = next_ref sh + 3, picture = DisplayTimeImage (DisplayTime svc),
          at_row = position r\<rparr> \<and>
      \<lparr>ref = next_ref sh, picture = StaticTextImage svc (CurrentService r),
        at_row = position r\<rparr> \<in> set (banners (snd (changeCard a svc pr (r, sh)))) \<and>
      state (fst (changeCard a svc pr (r, sh))) =
        (if ID svc = ''0'' then WAIT_STUD else WAIT_OPENING)) \<and>
   (both_empty svc r \<longrightarrow>
      changeCard a svc pr (r, sh) = (r\<lparr>state := STUD\<rparr>, ready (position r) sh))"
proof (intro conjI impI)
  assume "both_empty svc r"
  then show "changeCard a svc pr (r, sh) = (r\<lparr>state := STUD\<rparr>, ready (position r) sh)"
    by (rule changeCard_both_empty)
next
  assume h: "\<not> both_empty svc r \<and> allocated sh r \<and>
    (case pr of None \<Rightarrow> True | Some p \<Rightarrow> allocated sh p)"
  then have ne: "\<not> both_empty svc r" by simp
  from h have al: "allocated sh r" by simp
  from h have alp: "case pr of None \<Rightarrow> True | Some p \<Rightarrow> allocated sh p" by simp
  note im = changeCard_images [OF ne, of a pr sh]
  show "CurrentService (fst (changeCard a svc pr (r, sh))) = svc"
    using ne by (simp add: changeCard_row)
  show "IDestination (fst (changeCard a svc pr (r, sh))) =
        \<lparr>ref = next_ref sh + 1, picture = DestinationImage svc, at_row = position r\<rparr>"
    using im by blast
  show "IServiceNumber (fst (changeCard a svc pr (r, sh))) =
        \<lparr>ref = next_ref sh + 2, picture = ServiceNumberImage (ServiceNumber svc),
          at_row = position r\<rparr>"
    using im by blast
  show "IDisplayTime (fst (changeCard a svc pr (r, sh))) =
        \<lparr>ref = next_ref sh + 3, picture = DisplayTimeImage (DisplayTime svc),
          at_row = position r\<rparr>"
    using im by blast
  show "\<lparr>ref = next_ref sh, picture = StaticTextImage svc (CurrentService r),
        at_row = position r\<rparr> \<in> set (banners (snd (changeCard a svc pr (r, sh))))"
    by (rule changeCard_adds_banner [OF ne al alp])
  show "state (fst (changeCard a svc pr (r, sh))) =
        (if ID svc = ''0'' then WAIT_STUD else WAIT_OPENING)"
    using ne by (simp add: changeCard_row)
qed

theorem changeCard_replaces_card_witness:
  "\<not> both_empty svcC (example_row 1 svcB) \<and>
   allocated shared_ABC (example_row 1 svcB) \<and>
   allocated shared_ABC (example_row 2 svcC) \<and>
   CurrentService (fst (changeCard example_args svcC (Some (example_row 2 svcC))
       (example_row 1 svcB, shared_ABC))) = svcC \<and>
   IDestination (fst (changeCard example_args svcC (Some (example_row 2 svcC))
       (example_row 1 svcB, shared_ABC))) =
     \<lparr>ref = 13, picture = DestinationImage svcC, at_row = 1\<rparr> \<and>
   \<lparr>ref = 12, picture = StaticTextImage svcC svcB, at_row = 1\<rparr>
     \<in> set (banners (snd (changeCard example_args svcC (Some (example_row 2 svcC))
       (example_row 1 svcB, shared_ABC)))) \<and>
   state (fst (changeCard example_args svcC (Some (example_row 2 svcC))
       (example_row 1 svcB, shared_ABC))) = WAIT_OPENING"
proof -
  have ne: "\<not> both_empty svcC (example_row 1 svcB)"
    by (simp add: both_empty_def)
  from changeCard_replaces_card [of svcC "example_row 1 svcB" shared_ABC
      "Some (example_row 2 svcC)" example_args] ne
  show ?thesis by simp
qed

text \<open>
  The claim as stated fails when the row shows the empty sentinel and is given the empty
  sentinel again: the row goes to \<open>STUD\<close>, not to \<open>WAIT_STUD\<close>, its images are not
  rebuilt and no banner is added.
\<close>

theorem changeCard_empty_to_empty:
  "ID LiveTimeStud = ''0'' \<and>
   state (fst (changeCard example_args LiveTimeStud None
       (example_row 2 LiveTimeStud, shared_ABC))) = STUD \<and>
   IDestination (fst (changeCard example_args LiveTimeStud None
       (example_row 2 LiveTimeStud, shared_ABC))) = IDestination (example_row 2 LiveTimeStud) \<and>
   composed_images (snd (changeCard example_args LiveTimeStud None
       (example_row 2 LiveTimeStud, shared_ABC))) = composed_images shared_ABC"
proof -
  have be: "both_empty LiveTimeStud (example_row 2 LiveTimeStud)"
    by (simp add: both_empty_def)
  show ?thesis
    by (simp add: changeCard_both_empty [OF be])
qed

section \<open>Properties of the board\<close>

lemma set_row_fields [simp]:
  "shared (set_row p r b) = shared b"
  "Services (set_row p r b) = Services b"
  "rotating_index (set_row p r b) = rotating_index b"
  "rotating_update_pending (set_row p r b) = rotating_update_pending b"
  "outage_state (set_row p r b) = outage_state b"
  "scroll_delay (set_row p r b) = scroll_delay b"
  "live (set_row p r b) = live b"
  "fetch_task (set_row p r b) = fetch_task b"
  by (simp_all add: set_row_def)

lemma row_at_set_row:
  "row_at q (set_row p r b) = (if q = p \<and> p < 3 then r else row_at q b)"
  by (auto simp add: row_at_def set_row_def)

lemma row_at_updates [simp]:
  "row_at p (b\<lparr>shared := sh\<rparr>) = row_at p b"
  "row_at p (b\<lparr>rotating_index := i\<rparr>) = row_at p b"
  "row_at p (b\<lparr>rotating_update_pending := u\<rparr>) = row_at p b"
  "row_at p (b\<lparr>Services := s\<rparr>) = row_at p b"
  "row_at p (b\<lparr>fetch_task := f\<rparr>) = row_at p b"
  by (simp_all add: row_at_def)

lemma row_at_positions:
  "row_at 0 b = top_row b" "row_at 1 b = middle_row b" "row_at 2 b = bottom_row b"
  "row_at (Suc 0) b = middle_row b"
  by (simp_all add: row_at_def)

lemma row_at_Some_less: "row_at p b = Some r \<Longrightarrow> p < 3"
  by (auto simp add: row_at_def split: if_splits)

lemma row_changeCard_Some:
  "row_at p b = Some r \<Longrightarrow>
   row_changeCard a p svc b =
     (Returned (),
      set_row p (Some (fst (changeCard a svc (partner_row_of r b) (r, shared b))))
        (b\<lparr>shared := snd (changeCard a svc (partner_row_of r b) (r, shared b))\<rparr>))"
  by (simp add: row_changeCard_def split_def Let_def)

lemma row_changeCard_None:
  "row_at p b = None \<Longrightarrow> row_changeCard a p svc b = (Raised (AttributeError ''changeCard''), b)"
  by (simp add: row_changeCard_def)

lemma row_changeCard_fields [simp]:
  "Services (snd (row_changeCard a p svc b)) = Services b"
  "rotating_index (snd (row_changeCard a p svc b)) = rotating_index b"
  "rotating_update_pending (snd (row_changeCard a p svc b)) = rotating_update_pending b"
  "outage_state (snd (row_changeCard a p svc b)) = outage_state b"
  "scroll_delay (snd (row_changeCard a p svc b)) = scroll_delay b"
  "live (snd (row_changeCard a p svc b)) = live b"
  "fetch_task (snd (row_changeCard a p svc b)) = fetch_task b"
  by (cases "row_at p b"; simp add: row_changeCard_Some row_changeCard_None)+

lemma row_changeCard_other:
  "q \<noteq> p \<Longrightarrow> row_at q (snd (row_changeCard a p svc b)) = row_at q b"
  by (cases "row_at p b") (simp_all add: row_changeCard_Some row_changeCard_None row_at_set_row)

lemma row_changeCard_same:
  "row_at p b = Some r \<Longrightarrow>
   row_at p (snd (row_changeCard a p svc b)) =
     Some (fst (changeCard a svc (partner_row_of r b) (r, shared b)))"
  by (frule row_at_Some_less) (simp add: row_changeCard_Some row_at_set_row)

lemma and_then_Returned:
  "fst rb = Returned () \<Longrightarrow> and_then rb f = f (snd rb)"
  by (cases rb) (simp add: and_then_def)

lemma and_then_rotating_index:
  assumes "\<And>b. rotating_index (snd (f b)) = rotating_index b"
  shows "rotating_index (snd (and_then rb f)) = rotating_index (snd rb)"
  using assms by (cases rb; cases "fst rb") (auto simp add: and_then_def)

text \<open>The service a row shows after \<open>changeCard\<close>, by its ID and as a record.\<close>

lemma changeCard_shows:
  "ID (CurrentService (fst (changeCard a svc pr (r, sh)))) = ID svc \<and>
   (ID svc \<noteq> ''0'' \<or> ID (CurrentService r) \<noteq> ''0'' \<longrightarrow>
      CurrentService (fst (changeCard a svc pr (r, sh))) = svc)"
  by (auto simp add: changeCard_row both_empty_def)

lemma rotate_rows_many:
  assumes m: "middle_row b = Some m" and bt: "bottom_row b = Some bt"
    and L: "2 \<le> length rotating"
  shows "fst (rotate_rows a rotating b) = Returned () \<and>
    rotating_index (snd (rotate_rows a rotating b)) =
      (rotating_index b + 1) mod length rotating \<and>
    rotating_update_pending (snd (rotate_rows a rotating b)) = rotating_update_pending b \<and>
    middle_row (snd (rotate_rows a rotating b)) =
      Some (fst (changeCard a (rotating ! (rotating_index b mod length rotating))
              (partner_row_of m b) (m, shared b))) \<and>
    (\<exists>pr sh. bottom_row (snd (rotate_rows a rotating b)) =
      Some (fst (changeCard a (rotating ! ((rotating_index b + 1) mod length rotating))
              pr (bt, sh))))"
proof -
  let ?s2 = "rotating ! (rotating_index b mod length rotating)"
  let ?s3 = "rotating ! (Suc (rotating_index b) mod length rotating)"
  let ?b1 = "snd (row_changeCard a (Suc 0) ?s2 b)"
  let ?b2 = "snd (row_changeCard a 2 ?s3 ?b1)"
  have m1: "row_at (Suc 0) b = Some m" and bt1: "row_at 2 b = Some bt"
    using m bt by (simp_all add: row_at_positions)
  have r1: "fst (row_changeCard a (Suc 0) ?s2 b) = Returned ()"
    by (simp add: row_changeCard_Some [OF m1])
  have bt2: "row_at 2 ?b1 = Some bt"
    using bt1 by (simp add: row_changeCard_other)
  have r2: "fst (row_changeCard a 2 ?s3 ?b1) = Returned ()"
    by (simp add: row_changeCard_Some [OF bt2])
  have "rotate_rows a rotating b =
      (Returned (), ?b2\<lparr>rotating_index := (rotating_index ?b2 + 1) mod length rotating\<rparr>)"
  proof -
    from L have n0: "rotating \<noteq> []" and n1: "length rotating \<noteq> Suc 0"
      by auto
    show ?thesis
      by (simp add: rotate_rows_def Let_def and_then_Returned r1 r2 n0 n1)
  qed
  moreover have "row_at (Suc 0) ?b2 = Some (fst (changeCard a ?s2 (partner_row_of m b) (m, shared b)))"
    by (simp add: row_changeCard_other row_changeCard_same [OF m1])
  moreover have "row_at 2 ?b2 =
      Some (fst (changeCard a ?s3 (partner_row_of bt ?b1) (bt, shared ?b1)))"
    by (simp add: row_changeCard_same [OF bt2])
  ultimately show ?thesis
    by (auto simp add: row_at_positions)
qed

lemma requestCardChange_row2:
  assumes "\<not> in_outage b" "\<not> TimePassed a t (live b)" "\<not> rotating_update_pending b"
    and rot: "snd (split_pinned_rotating (Services b)) = rotating"
  shows "requestCardChange a t 2 b =
      (fst (rotate_rows a rotating (b\<lparr>rotating_update_pending := True\<rparr>)),
       (snd (rotate_rows a rotating (b\<lparr>rotating_update_pending := True\<rparr>)))
         \<lparr>rotating_update_pending := False\<rparr>)"
  using assms(1-3) by (simp add: requestCardChange_def split_def Let_def rot)

lemma rotate_rows_one:
  assumes m: "middle_row b = Some m" and bt: "bottom_row b = Some bt"
    and L: "length rotating = 1"
  shows "fst (rotate_rows a rotating b) = Returned () \<and>
    rotating_index (snd (rotate_rows a rotating b)) = rotating_index b \<and>
    middle_row (snd (rotate_rows a rotating b)) =
      Some (fst (changeCard a (rotating ! 0) (partner_row_of m b) (m, shared b))) \<and>
    (\<exists>pr sh. bottom_row (snd (rotate_rows a rotating b)) =
      Some (fst (changeCard a LiveTimeStud pr (bt, sh))))"
proof -
  let ?b1 = "snd (row_changeCard a (Suc 0) (rotating ! 0) b)"
  let ?b2 = "snd (row_changeCard a 2 LiveTimeStud ?b1)"
  have m1: "row_at (Suc 0) b = Some m" and bt1: "row_at 2 b = Some bt"
    using m bt by (simp_all add: row_at_positions)
  have r1: "fst (row_changeCard a (Suc 0) (rotating ! 0) b) = Returned ()"
    by (simp add: row_changeCard_Some [OF m1])
  have bt2: "row_at 2 ?b1 = Some bt"
    using bt1 by (simp add: row_changeCard_other)
  have r2: "fst (row_changeCard a 2 LiveTimeStud ?b1) = Returned ()"
    by (simp add: row_changeCard_Some [OF bt2])
  from L have n0: "rotating \<noteq> []"
    by auto
  have "rotate_rows a rotating b = (Returned (), ?b2)"
    using L r2 by (simp add: rotate_rows_def n0 and_then_Returned r1 prod_eq_iff)
  moreover have "row_at (Suc 0) ?b2 =
      Some (fst (changeCard a (rotating ! 0) (partner_row_of m b) (m, shared b)))"
    by (simp add: row_changeCard_other row_changeCard_same [OF m1])
  moreover have "row_at 2 ?b2 =
      Some (fst (changeCard a LiveTimeStud (partner_row_of bt ?b1) (bt, shared ?b1)))"
    by (simp add: row_changeCard_same [OF bt2])
  ultimately show ?thesis
    by (auto simp add: row_at_positions)
qed

text \<open>
  C2, as amended. When row 2 asks for a card change while the board is not in an
  outage, no fetch is due and no rotation is pending, then for every rotation index
  \<open>i\<close>: if the rotating list has length \<open>L \<ge> 2\<close>, rows 2 and 3 are given
  \<open>rotating[i mod L]\<close> and \<open>rotating[(i+1) mod L]\<close> and the rotation index becomes
  \<open>(i+1) mod L\<close>; if it has length 1, row 2 is given \<open>rotating[0]\<close>, row 3 the empty
  sentinel, and the rotation index stays \<open>i\<close>. (A row that is given a service then shows
  a record with that ID, and that very record unless both it and the row's previous one
  have the ID "0".)
\<close>

theorem requestCardChange_rotates:
  "\<not> in_outage b \<and> \<not> TimePassed a t (live b) \<and> \<not> rotating_update_pending b \<and>
   middle_row b = Some m \<and> bottom_row b = Some bt \<and>
   rotating = snd (split_pinned_rotating (Services b)) \<and> L = length rotating \<and>
   i = rotating_index b \<longrightarrow>
     (2 \<le> L \<longrightarrow>
        fst (requestCardChange a t 2 b) = Returned () \<and>
        rotating_index (snd (requestCardChange a t 2 b)) = (i + 1) mod L \<and>
        (\<exists>m'. middle_row (snd (requestCardChange a t 2 b)) = Some m' \<and>
           ID (CurrentService m') = ID (rotating ! (i mod L)) \<and>
           (ID (rotating ! (i mod L)) \<noteq> ''0'' \<or> ID (CurrentService m) \<noteq> ''0'' \<longrightarrow>
              CurrentService m' = rotating ! (i mod L))) \<and>
        (\<exists>bt'. bottom_row (snd (requestCardChange a t 2 b)) = Some bt' \<and>
           ID (CurrentService bt') = ID (rotating ! ((i + 1) mod L)) \<and>
           (ID (rotating ! ((i + 1) mod L)) \<noteq> ''0'' \<or> ID (CurrentService bt) \<noteq> ''0'' \<longrightarrow>
              CurrentService bt' = rotating ! ((i + 1) mod L)))) \<and>
     (L = 1 \<longrightarrow>
        fst (requestCardChange a t 2 b) = Returned () \<and>
        rotating_index (snd (requestCardChange a t 2 b)) = i \<and>
        (\<exists>m'. middle_row (snd (requestCardChange a t 2 b)) = Some m' \<and>
           ID (CurrentService m') = ID (rotating ! 0) \<and>
           (ID (rotating ! 0) \<noteq> ''0'' \<or> ID (CurrentService m) \<noteq> ''0'' \<longrightarrow>
              CurrentService m' = rotating ! 0)) \<and>
        (\<exists>bt'. bottom_row (snd (requestCardChange a t 2 b)) = Some bt' \<and>
           ID (CurrentService bt') = ''0'' \<and>
           (ID (CurrentService bt) \<noteq> ''0'' \<longrightarrow> CurrentService bt' = LiveTimeStud)))"
proof (intro impI conjI)
  assume h: "\<not> in_outage b \<and> \<not> TimePassed a t (live b) \<and> \<not> rotating_update_pending b \<and>
   middle_row b = Some m \<and> bottom_row b = Some bt \<and>
   rotating = snd (split_pinned_rotating (Services b)) \<and> L = length rotating \<and>
   i = rotating_index b"
  let ?b0 = "b\<lparr>rotating_update_pending := True\<rparr>"
  have m0: "middle_row ?b0 = Some m" and bt0: "bottom_row ?b0 = Some bt"
    using h by auto
  have hs: "\<not> in_outage b" "\<not> TimePassed a t (live b)" "\<not> rotating_update_pending b"
    and rot: "snd (split_pinned_rotating (Services b)) = rotating"
    using h by auto
  note req = requestCardChange_row2 [OF hs rot]
  have i0: "rotating_index ?b0 = i" and LL: "length rotating = L"
    using h by auto
  {
    assume "2 \<le> L"
    with LL have L2: "2 \<le> length rotating"
      by simp
    note rr = rotate_rows_many [OF m0 bt0 L2, of a]
    from rr obtain pr sh where
      bot: "bottom_row (snd (rotate_rows a rotating ?b0)) =
        Some (fst (changeCard a (rotating ! ((rotating_index ?b0 + 1) mod length rotating))
                pr (bt, sh)))"
      by blast
    note cm = changeCard_shows [of a "rotating ! (i mod L)" "partner_row_of m ?b0" m "shared ?b0"]
    note cb = changeCard_shows [of a "rotating ! ((i + 1) mod L)" pr bt sh]
    show "fst (requestCardChange a t 2 b) = Returned ()"
      using rr by (simp add: req)
    show "rotating_index (snd (requestCardChange a t 2 b)) = (i + 1) mod L"
      using rr by (simp add: req i0 LL)
    show "\<exists>m'. middle_row (snd (requestCardChange a t 2 b)) = Some m' \<and>
           ID (CurrentService m') = ID (rotating ! (i mod L)) \<and>
           (ID (rotating ! (i mod L)) \<noteq> ''0'' \<or> ID (CurrentService m) \<noteq> ''0'' \<longrightarrow>
              CurrentService m' = rotating ! (i mod L))"
      using rr cm by (simp add: req i0 LL)
    show "\<exists>bt'. bottom_row (snd (requestCardChange a t 2 b)) = Some bt' \<and>
           ID (CurrentService bt') = ID (rotating ! ((i + 1) mod L)) \<and>
           (ID (rotating ! ((i + 1) mod L)) \<noteq> ''0'' \<or> ID (CurrentService bt) \<noteq> ''0'' \<longrightarrow>
              CurrentService bt' = rotating ! ((i + 1) mod L))"
      using bot cb by (simp add: req i0 LL)
  }
  {
    assume "L = 1"
    with LL have L1: "length rotating = 1"
      by simp
    note ro = rotate_rows_one [OF m0 bt0 L1, of a]
    from ro obtain pr sh where
      bot: "bottom_row (snd (rotate_rows a rotating ?b0)) =
        Some (fst (changeCard a LiveTimeStud pr (bt, sh)))"
      by blast
    note cm = changeCard_shows [of a "rotating ! 0" "partner_row_of m ?b0" m "shared ?b0"]
    note cb = changeCard_shows [of a LiveTimeStud pr bt sh]
    have stud: "ID LiveTimeStud = ''0''"
      by (simp add: LiveTimeStud_def)
    show "fst (requestCardChange a t 2 b) = Returned ()"
      using ro by (simp add: req)
    show "rotating_index (snd (requestCardChange a t 2 b)) = i"
      using ro by (simp add: req i0)
    show "\<exists>m'. middle_row (snd (requestCardChange a t 2 b)) = Some m' \<and>
           ID (CurrentService m') = ID (rotating ! 0) \<and>
           (ID (rotating ! 0) \<noteq> ''0'' \<or> ID (CurrentService m) \<noteq> ''0'' \<longrightarrow>
              CurrentService m' = rotating ! 0)"
      using ro cm by (simp add: req)
    show "\<exists>bt'. bottom_row (snd (requestCardChange a t 2 b)) = Some bt' \<and>
           ID (CurrentService bt') = ''0'' \<and>
           (ID (CurrentService bt) \<noteq> ''0'' \<longrightarrow> CurrentService bt' = LiveTimeStud)"
      using bot cb by (simp add: req stud)
  }
qed

lemma split_three_services:
  "split_pinned_rotating three_services = (Some svcA, [svcB, svcC])"
  by (simp add: split_pinned_rotating_def three_services_def)

lemma split_two_services:
  "split_pinned_rotating two_services = (Some svcA, [svcB])"
  by (simp add: split_pinned_rotating_def two_services_def)

lemma steady_board_simps [simp]:
  "top_row (steady_board svcs s0 s1 s2) = Some (example_row 0 s0)"
  "middle_row (steady_board svcs s0 s1 s2) = Some (example_row 1 s1)"
  "bottom_row (steady_board svcs s0 s1 s2) = Some (example_row 2 s2)"
  "shared (steady_board svcs s0 s1 s2) = example_shared s0 s1 s2"
  "Services (steady_board svcs s0 s1 s2) = svcs"
  "rotating_index (steady_board svcs s0 s1 s2) = 0"
  "\<not> rotating_update_pending (steady_board svcs s0 s1 s2)"
  "\<not> in_outage (steady_board svcs s0 s1 s2)"
  "TimePassed a t (live (steady_board svcs s0 s1 s2)) = (RequestLimit a < t)"
  "RequestLimit example_args = 60"
  by (simp_all add: steady_board_def new_board_def in_outage_def TimePassed_def
      example_args_def)

theorem requestCardChange_rotates_witness:
  "\<not> in_outage board_ABC \<and> \<not> TimePassed example_args 10 (live board_ABC) \<and>
   \<not> rotating_update_pending board_ABC \<and>
   middle_row board_ABC = Some (example_row 1 svcB) \<and>
   bottom_row board_ABC = Some (example_row 2 svcC) \<and>
   snd (split_pinned_rotating (Services board_ABC)) = [svcB, svcC] \<and>
   rotating_index board_ABC = 0 \<and>
   fst (requestCardChange example_args 10 2 board_ABC) = Returned () \<and>
   rotating_index (snd (requestCardChange example_args 10 2 board_ABC)) = 1 \<and>
   map_option CurrentService (middle_row (snd (requestCardChange example_args 10 2 board_ABC)))
     = Some svcB \<and>
   map_option CurrentService (bottom_row (snd (requestCardChange example_args 10 2 board_ABC)))
     = Some svcC \<and>
   \<not> in_outage board_AC \<and> \<not> TimePassed example_args 10 (live board_AC) \<and>
   \<not> rotating_update_pending board_AC \<and>
   middle_row board_AC = Some (example_row 1 svcB) \<and>
   bottom_row board_AC = Some (example_row 2 svcC) \<and>
   snd (split_pinned_rotating (Services board_AC)) = [svcC] \<and>
   rotating_index board_AC = 0 \<and>
   fst (requestCardChange example_args 10 2 board_AC) = Returned () \<and>
   rotating_index (snd (requestCardChange example_args 10 2 board_AC)) = 0 \<and>
   map_option CurrentService (middle_row (snd (requestCardChange example_args 10 2 board_AC)))
     = Some svcC \<and>
   map_option CurrentService (bottom_row (snd (requestCardChange example_args 10 2 board_AC)))
     = Some LiveTimeStud"
proof -
  have s: "snd (split_pinned_rotating (Services board_ABC)) = [svcB, svcC]"
    by (simp add: board_ABC_def split_three_services)
  have s1: "snd (split_pinned_rotating (Services board_AC)) = [svcC]"
    by (simp add: board_AC_def split_pinned_rotating_def)
  have ids: "ID svcB \<noteq> ''0''" "ID svcC \<noteq> ''0''"
    by (simp_all add: svcB_def svcC_def example_service_def)
  from requestCardChange_rotates [of board_ABC example_args 10 "example_row 1 svcB"
      "example_row 2 svcC" "[svcB, svcC]" 2 0] s
  have one: "fst (requestCardChange example_args 10 2 board_ABC) = Returned () \<and>
   rotating_index (snd (requestCardChange example_args 10 2 board_ABC)) = 1 \<and>
   map_option CurrentService (middle_row (snd (requestCardChange example_args 10 2 board_ABC)))
     = Some svcB \<and>
   map_option CurrentService (bottom_row (snd (requestCardChange example_args 10 2 board_ABC)))
     = Some svcC"
    by (auto simp add: board_ABC_def)
  from requestCardChange_rotates [of board_AC example_args 10 "example_row 1 svcB"
      "example_row 2 svcC" "[svcC]" 1 0] s1 ids
  have two: "fst (requestCardChange example_args 10 2 board_AC) = Returned () \<and>
   rotating_index (snd (requestCardChange example_args 10 2 board_AC)) = 0 \<and>
   map_option CurrentService (middle_row (snd (requestCardChange example_args 10 2 board_AC)))
     = Some svcC \<and>
   map_option CurrentService (bottom_row (snd (requestCardChange example_args 10 2 board_AC)))
     = Some LiveTimeStud"
    by (auto simp add: board_AC_def)
  have pre: "\<not> in_outage board_ABC \<and> \<not> TimePassed example_args 10 (live board_ABC) \<and>
   \<not> rotating_update_pending board_ABC \<and>
   middle_row board_ABC = Some (example_row 1 svcB) \<and>
   bottom_row board_ABC = Some (example_row 2 svcC) \<and> rotating_index board_ABC = 0"
    by (simp add: board_ABC_def)
  have pre1: "\<not> in_outage board_AC \<and> \<not> TimePassed example_args 10 (live board_AC) \<and>
   \<not> rotating_update_pending board_AC \<and>
   middle_row board_AC = Some (example_row 1 svcB) \<and>
   bottom_row board_AC = Some (example_row 2 svcC) \<and> rotating_index board_AC = 0"
    by (simp add: board_AC_def)
  from one two pre pre1 s s1 show ?thesis
    by simp
qed

text \<open>
  The claim as stated fails for a rotating list of length 1: row 3 is given the empty
  sentinel, not \<open>rotating[(i+1) mod 1]\<close>.
\<close>

theorem requestCardChange_single_rotating:
  "\<not> in_outage board_AB \<and> \<not> TimePassed example_args 10 (live board_AB) \<and>
   \<not> rotating_update_pending board_AB \<and>
   length (snd (split_pinned_rotating (Services board_AB))) = 1 \<and>
   ID (snd (split_pinned_rotating (Services board_AB)) ! ((rotating_index board_AB + 1) mod 1))
     = ''B'' \<and>
   fst (requestCardChange example_args 10 2 board_AB) = Returned () \<and>
   map_option (\<lambda>r. ID (CurrentService r))
     (bottom_row (snd (requestCardChange example_args 10 2 board_AB))) = Some ''0''"
proof -
  let ?b0 = "board_AB\<lparr>rotating_update_pending := True\<rparr>"
  have s: "snd (split_pinned_rotating (Services board_AB)) = [svcB]"
    by (simp add: board_AB_def split_two_services)
  have req: "requestCardChange example_args 10 2 board_AB =
      (fst (rotate_rows example_args [svcB] ?b0),
       (snd (rotate_rows example_args [svcB] ?b0))\<lparr>rotating_update_pending := False\<rparr>)"
    by (rule requestCardChange_row2) (simp_all add: board_AB_def split_two_services)
  have m0: "middle_row ?b0 = Some (example_row 1 svcB)"
    and bt0: "bottom_row ?b0 = Some (example_row 2 LiveTimeStud)"
    by (simp_all add: board_AB_def)
  have L: "length [svcB] = 1"
    by simp
  from rotate_rows_one [OF m0 bt0 L, of example_args] obtain pr sh where
    r: "fst (rotate_rows example_args [svcB] ?b0) = Returned ()"
    and bot: "bottom_row (snd (rotate_rows example_args [svcB] ?b0)) =
      Some (fst (changeCard example_args LiveTimeStud pr (example_row 2 LiveTimeStud, sh)))"
    by blast
  have "ID (CurrentService (fst (changeCard example_args LiveTimeStud pr
      (example_row 2 LiveTimeStud, sh)))) = ''0''"
    by (simp add: changeCard_row both_empty_def)
  with r bot show ?thesis
    by (simp add: req s) (simp add: board_AB_def)
qed

lemma schedule_fetch_fields [simp]:
  "top_row (schedule_fetch b) = top_row b"
  "middle_row (schedule_fetch b) = middle_row b"
  "bottom_row (schedule_fetch b) = bottom_row b"
  "shared (schedule_fetch b) = shared b"
  "Services (schedule_fetch b) = Services b"
  "rotating_index (schedule_fetch b) = rotating_index b"
  by (simp_all add: schedule_fetch_def)

lemma requestCardChange_row1:
  "requestCardChange a t (Suc 0) b =
     (if in_outage b then (Returned (), b)
      else if TimePassed a t (live b) then (Returned (), schedule_fetch b)
      else if FixToArrive a then
        (case top_row b of
           None \<Rightarrow> (Raised (AttributeError ''refresh''), b)
         | Some c \<Rightarrow> (Returned (), b\<lparr>shared := refresh c (shared b)\<rparr>))
      else (Returned (), b))"
  by (simp add: requestCardChange_def split_def Let_def)

text \<open>
  C9, as amended. A card change asked for by row 1 never changes the service that any
  row shows, nor the service list or the rotation index, whether pin-to-earliest is
  enabled or not. With pin-to-earliest disabled, row 1 does not behave like a rotating
  row: the call returns without changing a row, the composition or the synchroniser;
  only row 2 starts the rotating reassignment.
\<close>

theorem requestCardChange_from_top:
  "map_option CurrentService (top_row (snd (requestCardChange a t 1 b)))
     = map_option CurrentService (top_row b) \<and>
   map_option CurrentService (middle_row (snd (requestCardChange a t 1 b)))
     = map_option CurrentService (middle_row b) \<and>
   map_option CurrentService (bottom_row (snd (requestCardChange a t 1 b)))
     = map_option CurrentService (bottom_row b) \<and>
   Services (snd (requestCardChange a t 1 b)) = Services b \<and>
   rotating_index (snd (requestCardChange a t 1 b)) = rotating_index b \<and>
   (\<not> FixToArrive a \<longrightarrow>
      fst (requestCardChange a t 1 b) = Returned () \<and>
      top_row (snd (requestCardChange a t 1 b)) = top_row b \<and>
      middle_row (snd (requestCardChange a t 1 b)) = middle_row b \<and>
      bottom_row (snd (requestCardChange a t 1 b)) = bottom_row b \<and>
      shared (snd (requestCardChange a t 1 b)) = shared b)"
  by (simp add: requestCardChange_row1 split: option.splits)

theorem requestCardChange_from_top_witness:
  "FixToArrive example_args \<and>
   map_option CurrentService (top_row (snd (requestCardChange example_args 10 1 board_ABC)))
     = Some svcA \<and>
   \<not> FixToArrive args_unpinned \<and>
   fst (requestCardChange args_unpinned 10 1 board_ABC) = Returned () \<and>
   top_row (snd (requestCardChange args_unpinned 10 1 board_ABC)) = top_row board_ABC \<and>
   middle_row (snd (requestCardChange args_unpinned 10 1 board_ABC)) = middle_row board_ABC \<and>
   bottom_row (snd (requestCardChange args_unpinned 10 1 board_ABC)) = bottom_row board_ABC \<and>
   shared (snd (requestCardChange args_unpinned 10 1 board_ABC)) = shared board_ABC \<and>
   rotating_index (snd (requestCardChange args_unpinned 10 1 board_ABC)) = 0"
proof -
  have f: "FixToArrive example_args" "\<not> FixToArrive args_unpinned"
    by (simp_all add: args_unpinned_def example_args_def)
  have h: "map_option CurrentService (top_row board_ABC) = Some svcA"
    "rotating_index board_ABC = 0"
    by (simp_all add: board_ABC_def)
  from requestCardChange_from_top [of example_args 10 board_ABC]
    requestCardChange_from_top [of args_unpinned 10 board_ABC] f h
  show ?thesis by simp
qed

text \<open>
  The claim as stated fails with pin-to-earliest disabled: a request from row 1 leaves
  the board as it is, while the same request from row 2 restarts row 2 and advances the
  rotation index.
\<close>

theorem requestCardChange_unpinned_top_idle:
  "\<not> FixToArrive args_unpinned \<and>
   requestCardChange args_unpinned 10 1 board_ABC = (Returned (), board_ABC) \<and>
   rotating_index board_ABC = 0 \<and>
   map_option state (middle_row board_ABC) = Some SCROLL_DECIDER \<and>
   rotating_index (snd (requestCardChange args_unpinned 10 2 board_ABC)) = 1 \<and>
   map_option state (middle_row (snd (requestCardChange args_unpinned 10 2 board_ABC)))
     = Some WAIT_OPENING"
proof -
  let ?b0 = "board_ABC\<lparr>rotating_update_pending := True\<rparr>"
  have f: "\<not> FixToArrive args_unpinned" and rl: "RequestLimit args_unpinned = 60"
    by (simp_all add: args_unpinned_def example_args_def)
  have one: "requestCardChange args_unpinned 10 1 board_ABC = (Returned (), board_ABC)"
    using f by (simp add: requestCardChange_row1 board_ABC_def rl)
  have req: "requestCardChange args_unpinned 10 2 board_ABC =
      (fst (rotate_rows args_unpinned [svcB, svcC] ?b0),
       (snd (rotate_rows args_unpinned [svcB, svcC] ?b0))\<lparr>rotating_update_pending := False\<rparr>)"
    by (rule requestCardChange_row2) (simp_all add: board_ABC_def split_three_services rl)
  have m0: "middle_row ?b0 = Some (example_row 1 svcB)"
    and bt0: "bottom_row ?b0 = Some (example_row 2 svcC)"
    and i0: "rotating_index ?b0 = 0"
    by (simp_all add: board_ABC_def)
  have L: "2 \<le> length [svcB, svcC]"
    by simp
  note rr = rotate_rows_many [OF m0 bt0 L, of args_unpinned]
  have "state (fst (changeCard args_unpinned svcB (partner_row_of (example_row 1 svcB) ?b0)
      (example_row 1 svcB, shared ?b0))) = WAIT_OPENING"
    by (simp add: changeCard_row both_empty_def)
  with rr one f show ?thesis
    by (simp add: req i0) (simp add: board_ABC_def)
qed

lemma find_id_None: "(find_id i xs = None) = (i \<notin> ID ` set xs)"
  by (induction xs) (auto split: option.splits)

lemma find_id_Some:
  "find_id i xs = Some k \<Longrightarrow> k < length xs \<and> ID (xs ! k) = i"
  by (induction xs arbitrary: k) (auto split: option.splits if_splits)

lemma find_id_distinct:
  "distinct (map ID xs) \<Longrightarrow> k < length xs \<Longrightarrow> find_id (ID (xs ! k)) xs = Some k"
proof (induction xs arbitrary: k)
  case Nil
  then show ?case by simp
next
  case (Cons x xs)
  show ?case
  proof (cases k)
    case 0
    then show ?thesis by simp
  next
    case (Suc j)
    with Cons.prems have j: "j < length xs" and d: "distinct (map ID xs)"
      and nx: "ID x \<notin> ID ` set xs"
      by auto
    from j have "ID (xs ! j) \<in> ID ` set xs"
      by auto
    with nx have "ID x \<noteq> ID (xs ! j)"
      by auto
    with Cons.IH [OF d j] Suc show ?thesis
      by simp
  qed
qed

lemma find_id_Some_mem: "find_id i xs = Some k \<Longrightarrow> i \<in> ID ` set xs"
  using find_id_None [of i xs] by auto

lemma find_visible_None: "(find_visible vis xs = None) = (set vis \<inter> ID ` set xs = {})"
  by (induction vis) (auto simp add: find_id_None dest: find_id_Some_mem split: option.splits)

lemma find_visible_Some:
  "find_visible vis xs = Some k \<Longrightarrow> k < length xs \<and> ID (xs ! k) \<in> set vis"
  by (induction vis) (auto dest: find_id_Some split: option.splits)

lemma split_rotating_distinct: "distinct (map ID (snd (split_pinned_rotating xs)))"
  by (cases xs) (simp_all add: split_pinned_rotating_Cons unique_from_distinct,
      simp add: split_pinned_rotating_def)

lemma update_display_rotating_index:
  assumes t: "top_row b \<noteq> None"
  shows "rotating_index (snd (update_display_with_new_data a b)) =
     new_rotating_index b (snd (split_pinned_rotating (Services b)))"
proof -
  let ?rot = "snd (split_pinned_rotating (Services b))"
  let ?idx = "new_rotating_index b ?rot"
  let ?b1 = "if ?idx \<noteq> rotating_index b then b\<lparr>rotating_index := ?idx\<rparr> else b"
  have b1: "rotating_index ?b1 = ?idx"
    by simp
  have ch: "\<And>p next b2. rotating_index (snd
      (case row_at p b2 of
         None \<Rightarrow> row_changeCard a p next b2
       | Some c \<Rightarrow>
           if ID (CurrentService c) \<noteq> ID next then row_changeCard a p next b2
           else (Returned (), b2))) = rotating_index b2"
    by (simp split: option.splits)
  have top: "\<And>nt. rotating_index (snd
      (case nt of Some svc \<Rightarrow> row_changeCard a 0 svc ?b1 | None \<Rightarrow> (Returned (), ?b1))) = ?idx"
    by (simp split: option.splits)
  from t have tn: "(top_row b = None) = False"
    by simp
  show ?thesis
    by (simp add: update_display_with_new_data_def split_def Let_def tn
        and_then_rotating_index ch top del: One_nat_def)
qed

text \<open>
  C3. For every reassignment on new data of a board that has its rows: when the first
  rotating row shows a service (not the empty sentinel) whose ID is at position \<open>k\<close> of
  the new rotating list, \<open>update_display_with_new_data\<close> sets the rotation index to
  \<open>k\<close>; when that ID is not in the new list but the ID of some visible row is, the index
  is set to the position of a visible ID; when no visible ID is in the new list, the
  index is kept.
\<close>

theorem update_display_reanchors:
  "top_row b \<noteq> None \<and> rotating = snd (split_pinned_rotating (Services b)) \<and>
   visible = shown_id (top_row b) @ shown_id (middle_row b) @ shown_id (bottom_row b) \<longrightarrow>
     (\<forall>k. k < length rotating \<and> shown_id (middle_row b) = [ID (rotating ! k)] \<longrightarrow>
        rotating_index (snd (update_display_with_new_data a b)) = k) \<and>
     (set (shown_id (middle_row b)) \<inter> ID ` set rotating = {} \<and>
      set visible \<inter> ID ` set rotating \<noteq> {} \<longrightarrow>
        rotating_index (snd (update_display_with_new_data a b)) < length rotating \<and>
        ID (rotating ! rotating_index (snd (update_display_with_new_data a b))) \<in> set visible) \<and>
     (set visible \<inter> ID ` set rotating = {} \<longrightarrow>
        rotating_index (snd (update_display_with_new_data a b)) = rotating_index b)"
proof (intro impI)
  assume h: "top_row b \<noteq> None \<and> rotating = snd (split_pinned_rotating (Services b)) \<and>
   visible = shown_id (top_row b) @ shown_id (middle_row b) @ shown_id (bottom_row b)"
  then have t: "top_row b \<noteq> None" by simp
  from h have rot: "snd (split_pinned_rotating (Services b)) = rotating" by simp
  from h have vis: "shown_id (top_row b) @ shown_id (middle_row b) @ shown_id (bottom_row b)
      = visible" by simp
  have d: "distinct (map ID rotating)"
    using split_rotating_distinct [of "Services b"] rot by simp
  have idx: "rotating_index (snd (update_display_with_new_data a b)) =
      new_rotating_index b rotating"
    using update_display_rotating_index [OF t, of a] rot by simp
  have one: "\<forall>k. k < length rotating \<and> shown_id (middle_row b) = [ID (rotating ! k)] \<longrightarrow>
        new_rotating_index b rotating = k"
  proof (intro allI impI)
    fix k assume k: "k < length rotating \<and> shown_id (middle_row b) = [ID (rotating ! k)]"
    then have "find_id (ID (rotating ! k)) rotating = Some k"
      using find_id_distinct [OF d] by simp
    moreover from k have "rotating \<noteq> []"
      by auto
    ultimately show "new_rotating_index b rotating = k"
      using k by (simp add: new_rotating_index_def Let_def)
  qed
  have mid_sub: "set (shown_id (middle_row b)) \<subseteq> set visible"
    using vis by auto
  have two: "set (shown_id (middle_row b)) \<inter> ID ` set rotating = {} \<and>
      set visible \<inter> ID ` set rotating \<noteq> {} \<longrightarrow>
        new_rotating_index b rotating < length rotating \<and>
        ID (rotating ! new_rotating_index b rotating) \<in> set visible"
  proof
    assume a2: "set (shown_id (middle_row b)) \<inter> ID ` set rotating = {} \<and>
      set visible \<inter> ID ` set rotating \<noteq> {}"
    then have ne: "rotating \<noteq> []" and vne: "visible \<noteq> []"
      by auto
    from a2 have mid: "(case (case shown_id (middle_row b) of [] \<Rightarrow> None | i # x \<Rightarrow> Some i) of
        None \<Rightarrow> None | Some i \<Rightarrow> find_id i rotating) = None"
      by (cases "shown_id (middle_row b)") (auto simp add: find_id_None)
    from a2 obtain k where fv: "find_visible visible rotating = Some k"
      using find_visible_None [of visible rotating] by auto
    from find_visible_Some [OF fv] have "k < length rotating \<and> ID (rotating ! k) \<in> set visible" .
    moreover have "new_rotating_index b rotating = k"
      using ne vne fv mid by (simp add: new_rotating_index_def Let_def vis)
    ultimately show "new_rotating_index b rotating < length rotating \<and>
        ID (rotating ! new_rotating_index b rotating) \<in> set visible"
      by simp
  qed
  have three: "set visible \<inter> ID ` set rotating = {} \<longrightarrow>
      new_rotating_index b rotating = rotating_index b"
  proof
    assume a3: "set visible \<inter> ID ` set rotating = {}"
    with mid_sub have "set (shown_id (middle_row b)) \<inter> ID ` set rotating = {}"
      by auto
    then have mid: "(case (case shown_id (middle_row b) of [] \<Rightarrow> None | i # x \<Rightarrow> Some i) of
        None \<Rightarrow> None | Some i \<Rightarrow> find_id i rotating) = None"
      by (cases "shown_id (middle_row b)") (auto simp add: find_id_None)
    from a3 have fv: "find_visible visible rotating = None"
      by (simp add: find_visible_None)
    show "new_rotating_index b rotating = rotating_index b"
      using fv mid by (simp add: new_rotating_index_def Let_def vis)
  qed
  from one two three show "(\<forall>k. k < length rotating \<and> shown_id (middle_row b) = [ID (rotating ! k)] \<longrightarrow>
        rotating_index (snd (update_display_with_new_data a b)) = k) \<and>
     (set (shown_id (middle_row b)) \<inter> ID ` set rotating = {} \<and>
      set visible \<inter> ID ` set rotating \<noteq> {} \<longrightarrow>
        rotating_index (snd (update_display_with_new_data a b)) < length rotating \<and>
        ID (rotating ! rotating_index (snd (update_display_with_new_data a b))) \<in> set visible) \<and>
     (set visible \<inter> ID ` set rotating = {} \<longrightarrow>
        rotating_index (snd (update_display_with_new_data a b)) = rotating_index b)"
    unfolding idx by blast
qed

theorem update_display_reanchors_witness:
  "top_row board_ACB \<noteq> None \<and>
   snd (split_pinned_rotating (Services board_ACB)) = [svcB, svcC] \<and>
   shown_id (middle_row board_ACB) = [ID ([svcB, svcC] ! 1)] \<and>
   rotating_index board_ACB = 0 \<and>
   rotating_index (snd (update_display_with_new_data example_args board_ACB)) = 1"
proof -
  have s: "snd (split_pinned_rotating (Services board_ACB)) = [svcB, svcC]"
    by (simp add: board_ACB_def split_three_services)
  have m: "shown_id (middle_row board_ACB) = [ID ([svcB, svcC] ! 1)]"
    by (simp add: board_ACB_def shown_id_def)
  have t: "top_row board_ACB \<noteq> None" and i: "rotating_index board_ACB = 0"
    by (simp_all add: board_ACB_def)
  from update_display_reanchors [of board_ACB "[svcB, svcC]"
      "shown_id (top_row board_ACB) @ shown_id (middle_row board_ACB)
         @ shown_id (bottom_row board_ACB)" example_args] s t
  have "\<forall>k. k < length [svcB, svcC] \<and> shown_id (middle_row board_ACB)
        = [ID ([svcB, svcC] ! k)] \<longrightarrow>
      rotating_index (snd (update_display_with_new_data example_args board_ACB)) = k"
    by simp
  then have "1 < length [svcB, svcC] \<and> shown_id (middle_row board_ACB)
        = [ID ([svcB, svcC] ! 1)] \<longrightarrow>
      rotating_index (snd (update_display_with_new_data example_args board_ACB)) = 1"
    by blast
  with m s t i show ?thesis
    by simp
qed

section \<open>At most one row scrolls\<close>



lemma slot_inv_fields:
  assumes "slot_inv b"
    and "\<And>p. row_at p b' = row_at p b"
    and "synchronised (shared b') = synchronised (shared b)"
  shows "slot_inv b'"
  using assms by (simp add: slot_inv_def marked_busy_def)




lemma is_waiting_keeps [simp]:
  "state (snd (is_waiting r)) = state r"
  "position (snd (is_waiting r)) = position r"
  "CurrentService (snd (is_waiting r)) = CurrentService r"
  by (simp_all add: is_waiting_def)







lemma slot_inv_update_fields [simp]:
  "slot_inv (b\<lparr>rotating_index := i\<rparr>) = slot_inv b"
  "slot_inv (b\<lparr>rotating_update_pending := u\<rparr>) = slot_inv b"
  "slot_inv (b\<lparr>Services := svcs\<rparr>) = slot_inv b"
  "slot_inv (b\<lparr>fetch_task := f\<rparr>) = slot_inv b"
  "slot_inv (b\<lparr>outage_state := s\<rparr>) = slot_inv b"
  "slot_inv (b\<lparr>live := l\<rparr>) = slot_inv b"
  by (simp_all add: slot_inv_def row_at_def)

lemma slot_inv_schedule_fetch [simp]: "slot_inv (schedule_fetch b) = slot_inv b"
  by (simp add: schedule_fetch_def)















































end
